theory Spec2Isabelle
  imports Main "HOL-Library.Word"
begin

unbundle bit_operations_syntax

section \<open>Basic types and constants of \<open>beecs.h\<close>\<close>

text \<open>
  \<open>EntityID\<close> is \<open>uint64_t\<close>; \<open>ComponentMask\<close> is \<open>std::bitset<MAX_COMPONENTS>\<close>, a row of 64
  bits. Values of type \<open>size_t\<close> (dense indices, bit positions, vector sizes) are natural
  numbers; the largest one, \<open>2 ^ 64 - 1\<close>, is the tombstone. A component type \<open>T\<close> is known to
  the registry by \<open>typeid(T).name()\<close>, a string.
\<close>

type_synonym EntityID = "64 word"
type_synonym ComponentMask = "64 word"
type_synonym TypeName = string

definition NULL_ENTITY :: EntityID where
  "NULL_ENTITY = - 1"

definition MAX_ENTITIES :: nat where
  "MAX_ENTITIES = 1000000"

definition MAX_COMPONENTS :: nat where
  "MAX_COMPONENTS = 64"

definition SPARSE_MAX_SIZE :: nat where
  "SPARSE_MAX_SIZE = 1000"

definition tombstone :: nat where
  "tombstone = 2 ^ 64 - 1"

text \<open>
  \<open>BSEECS_ASSERT\<close> prints its message and calls \<open>abort()\<close>. Each assertion of the source is
  one constructor of \<open>fault\<close>, named after its message. (The message is built only when
  the assertion fails; where it contains \<open>ENTITY_INFO\<close> it calls \<open>GetEntityName\<close>, which
  asserts the validity of the id first, so that for an invalid id the process aborts with
  that message instead. Either way it aborts.) Besides an abort, a call can leave the
  defined behaviour of C++ (an index outside a vector, \<open>back()\<close> of an empty vector, a
  dereferenced end iterator), or \<open>push_back\<close> can throw \<open>std::length_error\<close>.
\<close>

datatype fault =
    NullEntityOperated
  | InvalidEntityOutOfBounds
  | UnregisteredComponent TypeName
  | PoolIndexOutOfRange
  | AlreadyRegistered TypeName
  | ExceededMaxComponents
  | EntityLimitExceeded
  | CreateNullID
  | AlreadyHasComponent
  | RequiredMismatch
  | MissingRequired TypeName
  | MissingSomeRequired
  | MissingComponent
  | NoComponentToRemove
  | SustainedMismatch
  | SustainedNotRemoved TypeName
  | DeleteSustainedFirst
  | DeleteNonExistent

datatype error = Abort fault | UndefinedBehaviour | LengthError

definition andThen :: "error + 'a \<Rightarrow> ('a \<Rightarrow> error + 'b) \<Rightarrow> error + 'b" where
  "andThen m f = (case m of Inl e \<Rightarrow> Inl e | Inr x \<Rightarrow> f x)"

definition BSEECS_ASSERT :: "bool \<Rightarrow> fault \<Rightarrow> error + unit" where
  "BSEECS_ASSERT condition msg = (if condition then Inr () else Inl (Abort msg))"

section \<open>\<open>std::vector\<close> operations\<close>

text \<open>
  A vector is a list. \<open>operator[]\<close>, \<open>back()\<close> and \<open>pop_back()\<close> have a precondition; outside
  it the result is \<open>UndefinedBehaviour\<close>. No vector holds more than \<open>PTRDIFF_MAX\<close> elements:
  \<open>push_back\<close> on a vector of that size throws. Hence \<open>size()\<close> is always a \<open>size_t\<close> below
  the tombstone. Running out of memory earlier is not modelled.
\<close>

definition vector_max_size :: nat where
  "vector_max_size = 2 ^ 63 - 1"

definition vec_at :: "'a list \<Rightarrow> nat \<Rightarrow> error + 'a" where
  "vec_at xs i = (if i < length xs then Inr (xs ! i) else Inl UndefinedBehaviour)"

definition vec_assign :: "'a list \<Rightarrow> nat \<Rightarrow> 'a \<Rightarrow> error + 'a list" where
  "vec_assign xs i v = (if i < length xs then Inr (xs[i := v]) else Inl UndefinedBehaviour)"

definition vec_resize :: "'a list \<Rightarrow> nat \<Rightarrow> 'a \<Rightarrow> 'a list" where
  "vec_resize xs n v = (if n \<le> length xs then take n xs else xs @ replicate (n - length xs) v)"

definition vec_push_back :: "'a list \<Rightarrow> 'a \<Rightarrow> error + 'a list" where
  "vec_push_back xs v = (if length xs < vector_max_size then Inr (xs @ [v]) else Inl LengthError)"

definition vec_back :: "'a list \<Rightarrow> error + 'a" where
  "vec_back xs = (if xs = [] then Inl UndefinedBehaviour else Inr (last xs))"

definition vec_pop_back :: "'a list \<Rightarrow> error + 'a list" where
  "vec_pop_back xs = (if xs = [] then Inl UndefinedBehaviour else Inr (butlast xs))"

definition vec_swap_back :: "'a list \<Rightarrow> nat \<Rightarrow> error + 'a list" where
  \<comment> \<open>\<open>std::swap(xs.back(), xs[i])\<close>\<close>
  "vec_swap_back xs i =
     andThen (vec_back xs) (\<lambda>b.
     andThen (vec_at xs i) (\<lambda>x.
     andThen (vec_assign xs i b) (\<lambda>ys.
     vec_assign ys (length ys - 1) x)))"

section \<open>\<open>SparseSet<T>\<close>\<close>

record 'v SparseSet =
  m_sparsePages :: "nat list list"
  m_dense :: "'v list"
  m_denseToEntity :: "EntityID list"

definition SparseSet_new :: "'v SparseSet" where
  \<comment> \<open>the constructor; \<open>reserve\<close> changes the capacity only\<close>
  "SparseSet_new = \<lparr>m_sparsePages = [], m_dense = [], m_denseToEntity = []\<rparr>"

definition SetDenseIndex :: "'v SparseSet \<Rightarrow> EntityID \<Rightarrow> nat \<Rightarrow> error + 'v SparseSet" where
  "SetDenseIndex s eid index =
     (let page = unat eid div SPARSE_MAX_SIZE;
          sparseIndex = unat eid mod SPARSE_MAX_SIZE;
          pages = (if page \<ge> length (m_sparsePages s)
                   then vec_resize (m_sparsePages s) (page + 1) []
                   else m_sparsePages s)
      in andThen (vec_at pages page) (\<lambda>sparse0.
         let sparse = (if sparseIndex \<ge> length sparse0
                       then vec_resize sparse0 (sparseIndex + 1) tombstone
                       else sparse0)
         in andThen (vec_assign sparse sparseIndex index) (\<lambda>sparse'.
            andThen (vec_assign pages page sparse') (\<lambda>pages'.
            Inr (s\<lparr>m_sparsePages := pages'\<rparr>)))))"

definition GetDenseIndex :: "'v SparseSet \<Rightarrow> EntityID \<Rightarrow> error + nat" where
  "GetDenseIndex s eid =
     (let page = unat eid div SPARSE_MAX_SIZE;
          sparseIndex = unat eid mod SPARSE_MAX_SIZE
      in if page < length (m_sparsePages s)
         then andThen (vec_at (m_sparsePages s) page) (\<lambda>sparse.
              if sparseIndex < length sparse then vec_at sparse sparseIndex
              else Inr tombstone)
         else Inr tombstone)"

text \<open>
  \<open>Set\<close> returns a pointer into the dense vector; the model returns the dense index it
  points at, next to the new state.
\<close>

definition Set :: "'v SparseSet \<Rightarrow> EntityID \<Rightarrow> 'v \<Rightarrow> error + (nat \<times> 'v SparseSet)" where
  "Set s eid obj =
     andThen (GetDenseIndex s eid) (\<lambda>index.
     if index \<noteq> tombstone then
       andThen (vec_assign (m_dense s) index obj) (\<lambda>dense.
       andThen (vec_assign (m_denseToEntity s) index eid) (\<lambda>d2e.
       Inr (index, s\<lparr>m_dense := dense, m_denseToEntity := d2e\<rparr>)))
     else
       andThen (SetDenseIndex s eid (length (m_dense s))) (\<lambda>s1.
       andThen (vec_push_back (m_dense s1) obj) (\<lambda>dense.
       andThen (vec_push_back (m_denseToEntity s1) eid) (\<lambda>d2e.
       Inr (length dense - 1, s1\<lparr>m_dense := dense, m_denseToEntity := d2e\<rparr>)))))"

text \<open>\<open>Get\<close> returns a pointer or \<open>nullptr\<close>; the model returns the value pointed at, or \<open>None\<close>.\<close>

definition Get :: "'v SparseSet \<Rightarrow> EntityID \<Rightarrow> error + 'v option" where
  "Get s eid =
     andThen (GetDenseIndex s eid) (\<lambda>index.
     if index \<noteq> tombstone then andThen (vec_at (m_dense s) index) (\<lambda>v. Inr (Some v))
     else Inr None)"

definition Delete :: "'v SparseSet \<Rightarrow> EntityID \<Rightarrow> error + 'v SparseSet" where
  "Delete s eid =
     andThen (GetDenseIndex s eid) (\<lambda>deletedIndex.
     andThen (BSEECS_ASSERT (deletedIndex \<noteq> tombstone \<and> m_dense s \<noteq> []) DeleteNonExistent) (\<lambda>_.
     andThen (vec_back (m_denseToEntity s)) (\<lambda>lastEntity.
     andThen (SetDenseIndex s lastEntity deletedIndex) (\<lambda>s1.
     andThen (SetDenseIndex s1 eid tombstone) (\<lambda>s2.
     andThen (vec_swap_back (m_dense s2) deletedIndex) (\<lambda>dense.
     andThen (vec_swap_back (m_denseToEntity s2) deletedIndex) (\<lambda>d2e.
     andThen (vec_pop_back dense) (\<lambda>dense'.
     andThen (vec_pop_back d2e) (\<lambda>d2e'.
     Inr (s2\<lparr>m_dense := dense', m_denseToEntity := d2e'\<rparr>))))))))))"

definition Clear :: "'v SparseSet \<Rightarrow> 'v SparseSet" where
  "Clear s = s\<lparr>m_dense := [], m_sparsePages := [], m_denseToEntity := []\<rparr>"

section \<open>\<open>ECS\<close>\<close>

text \<open>
  The engine keeps one \<open>SparseSet<T>\<close> per registered component type behind a pointer to
  \<open>ISparseSet\<close>. In the model every pool stores values of one type \<open>'v\<close> (a sum over the
  component types instantiates it), so the \<open>dynamic_cast\<close> of \<open>GetComponentPool\<close>, which
  in the source always meets the pool that \<open>RegisterComponent<T>\<close> created for \<open>T\<close>, has no
  failing branch. \<open>BSEECS_INFO\<close> expands to nothing unless \<open>BSEECS_INFO_ENABLED\<close> is defined,
  and is left out.
\<close>

record ComponentInfo =
  m_bitPosition :: nat
  m_requiredComponents :: ComponentMask
  m_isRequiredInComponents :: ComponentMask

record 'v ECS =
  m_availableEntities :: "EntityID list"
  m_entityNames :: "EntityID \<rightharpoonup> string"
  m_componentPools :: "'v SparseSet list"
  m_componentBitPosition :: "TypeName \<rightharpoonup> ComponentInfo"
  m_maxEntityID :: EntityID

definition ECS_new :: "'v ECS" where
  "ECS_new = \<lparr>m_availableEntities = [], m_entityNames = Map.empty, m_componentPools = [],
              m_componentBitPosition = Map.empty, m_maxEntityID = 0\<rparr>"

definition BSEECS_ASSERT_VALID_ENTITY :: "'v ECS \<Rightarrow> EntityID \<Rightarrow> error + unit" where
  "BSEECS_ASSERT_VALID_ENTITY e eid =
     andThen (BSEECS_ASSERT (eid \<noteq> NULL_ENTITY) NullEntityOperated) (\<lambda>_.
     BSEECS_ASSERT (eid < m_maxEntityID e \<and> eid \<ge> 0) InvalidEntityOutOfBounds)"

definition GetComponentBitPosition :: "'v ECS \<Rightarrow> TypeName \<Rightarrow> nat" where
  "GetComponentBitPosition e T =
     (case m_componentBitPosition e T of None \<Rightarrow> tombstone | Some info \<Rightarrow> m_bitPosition info)"

definition GetRequiredComponent :: "'v ECS \<Rightarrow> TypeName \<Rightarrow> ComponentMask option" where
  "GetRequiredComponent e T =
     (case m_componentBitPosition e T of None \<Rightarrow> None
      | Some info \<Rightarrow> Some (m_requiredComponents info))"

definition GetSustainedComponent :: "'v ECS \<Rightarrow> TypeName \<Rightarrow> ComponentMask option" where
  "GetSustainedComponent e T =
     (case m_componentBitPosition e T of None \<Rightarrow> None
      | Some info \<Rightarrow> Some (m_isRequiredInComponents info))"

definition SetComponentBit ::
  "'v ECS \<Rightarrow> TypeName \<Rightarrow> ComponentMask \<Rightarrow> bool \<Rightarrow> error + ComponentMask" where
  \<comment> \<open>\<open>mask[bitPos] = val\<close> is defined for \<open>bitPos < MAX_COMPONENTS\<close> only\<close>
  "SetComponentBit e Component cmask val =
     (let bitPos = GetComponentBitPosition e Component
      in andThen (BSEECS_ASSERT (bitPos \<noteq> tombstone) (UnregisteredComponent Component)) (\<lambda>_.
         if bitPos < MAX_COMPONENTS
         then Inr (if val then set_bit bitPos cmask else unset_bit bitPos cmask)
         else Inl UndefinedBehaviour))"

text \<open>The fold expressions over a parameter pack are recursions over the list of types.\<close>

fun GetMask_fold :: "'v ECS \<Rightarrow> ComponentMask \<Rightarrow> TypeName list \<Rightarrow> error + ComponentMask" where
  "GetMask_fold e cmask [] = Inr cmask"
| "GetMask_fold e cmask (C # Components) =
     andThen (SetComponentBit e C cmask True) (\<lambda>cmask'. GetMask_fold e cmask' Components)"

definition GetMask :: "'v ECS \<Rightarrow> TypeName list \<Rightarrow> error + ComponentMask" where
  "GetMask e Components = GetMask_fold e 0 Components"

definition SetRequirements :: "'v ECS \<Rightarrow> TypeName \<Rightarrow> TypeName \<Rightarrow> error + 'v ECS" where
  \<comment> \<open>\<open>find(name)->second\<close> dereferences the end iterator when the name is absent\<close>
  "SetRequirements e DependentComponent RequiredComponent =
     (case m_componentBitPosition e RequiredComponent of
        None \<Rightarrow> Inl UndefinedBehaviour
      | Some info \<Rightarrow>
          andThen (SetComponentBit e DependentComponent (m_isRequiredInComponents info) True)
            (\<lambda>requiredCompMask.
               Inr (e\<lparr>m_componentBitPosition := (m_componentBitPosition e)
                      (RequiredComponent \<mapsto> info\<lparr>m_isRequiredInComponents := requiredCompMask\<rparr>)\<rparr>)))"

fun BroadcastRequirements :: "'v ECS \<Rightarrow> TypeName \<Rightarrow> TypeName list \<Rightarrow> error + 'v ECS" where
  "BroadcastRequirements e DependentComponent [] = Inr e"
| "BroadcastRequirements e DependentComponent (R # RequiredComponents) =
     andThen (SetRequirements e DependentComponent R) (\<lambda>e'.
     BroadcastRequirements e' DependentComponent RequiredComponents)"

definition RegisterComponent :: "'v ECS \<Rightarrow> TypeName \<Rightarrow> TypeName list \<Rightarrow> error + 'v ECS" where
  "RegisterComponent e T Components =
     andThen (BSEECS_ASSERT (m_componentBitPosition e T = None) (AlreadyRegistered T)) (\<lambda>_.
     andThen (BSEECS_ASSERT (length (m_componentPools e) < MAX_COMPONENTS) ExceededMaxComponents) (\<lambda>_.
     andThen (GetMask e Components) (\<lambda>requiredCompMask.
     andThen (vec_push_back (m_componentPools e) SparseSet_new) (\<lambda>pools.
     BroadcastRequirements
       (e\<lparr>m_componentBitPosition := (m_componentBitPosition e)
             (T \<mapsto> \<lparr>m_bitPosition = length (m_componentPools e),
                     m_requiredComponents = requiredCompMask,
                     m_isRequiredInComponents = 0\<rparr>),
          m_componentPools := pools\<rparr>)
       T Components))))"

text \<open>
  \<open>GetComponentPool\<close> returns a reference to a pool of the engine; the model returns the
  engine (changed when the type was registered on the way) and the index of the pool in
  \<open>m_componentPools\<close>.
\<close>

definition GetComponentPool :: "'v ECS \<Rightarrow> TypeName \<Rightarrow> bool \<Rightarrow> error + ('v ECS \<times> nat)" where
  "GetComponentPool e T registerIfNotFound =
     andThen
       (if GetComponentBitPosition e T = tombstone then
          andThen (if registerIfNotFound
                   then andThen (RegisterComponent e T [])
                          (\<lambda>e'. Inr (e', GetComponentBitPosition e' T))
                   else Inr (e, GetComponentBitPosition e T)) (\<lambda>r.
          andThen (BSEECS_ASSERT registerIfNotFound (UnregisteredComponent T)) (\<lambda>_. Inr r))
        else Inr (e, GetComponentBitPosition e T))
       (\<lambda>(e', bitPos).
          andThen (BSEECS_ASSERT (bitPos < length (m_componentPools e') \<and> bitPos \<ge> 0)
                     PoolIndexOutOfRange) (\<lambda>_.
          andThen (vec_at (m_componentPools e') bitPos) (\<lambda>pool. Inr (e', bitPos))))"

text \<open>\<open>CreateEntity\<close> returns the id and the new engine.\<close>

definition CreateEntity :: "'v ECS \<Rightarrow> string \<Rightarrow> error + (EntityID \<times> 'v ECS)" where
  "CreateEntity e name =
     andThen
       (if length (m_availableEntities e) = 0 then
          andThen (BSEECS_ASSERT (unat (m_maxEntityID e) < MAX_ENTITIES) EntityLimitExceeded) (\<lambda>_.
          Inr (m_maxEntityID e, e\<lparr>m_maxEntityID := m_maxEntityID e + 1\<rparr>))
        else
          andThen (vec_back (m_availableEntities e)) (\<lambda>eid.
          andThen (vec_pop_back (m_availableEntities e)) (\<lambda>avail.
          Inr (eid, e\<lparr>m_availableEntities := avail\<rparr>))))
       (\<lambda>(eid, e1).
          andThen (BSEECS_ASSERT (unat eid \<noteq> tombstone) CreateNullID) (\<lambda>_.
          Inr (eid, if name \<noteq> [] then e1\<lparr>m_entityNames := (m_entityNames e1)(eid \<mapsto> name)\<rparr>
                    else e1)))"

definition GetEntityName :: "'v ECS \<Rightarrow> EntityID \<Rightarrow> error + string" where
  "GetEntityName e eid =
     andThen (BSEECS_ASSERT_VALID_ENTITY e eid) (\<lambda>_.
     case m_entityNames e eid of None \<Rightarrow> Inr ''Entity'' | Some name \<Rightarrow> Inr name)"

text \<open>
  \<open>DeleteEntity\<close> takes the caller's handle by reference; the model returns the value the
  handle holds afterwards, and the new engine.
\<close>

definition DeleteEntity :: "'v ECS \<Rightarrow> EntityID \<Rightarrow> error + (EntityID \<times> 'v ECS)" where
  "DeleteEntity e eid =
     andThen (BSEECS_ASSERT_VALID_ENTITY e eid) (\<lambda>_.
     andThen (GetEntityName e eid) (\<lambda>name.
     andThen (vec_push_back (m_availableEntities e) eid) (\<lambda>avail.
     Inr (NULL_ENTITY,
          e\<lparr>m_entityNames := (m_entityNames e)(eid := None), m_availableEntities := avail\<rparr>))))"

definition Has :: "'v ECS \<Rightarrow> TypeName \<Rightarrow> EntityID \<Rightarrow> error + bool" where
  "Has e T eid =
     andThen (GetComponentPool e T False) (\<lambda>(e', pool).
     andThen (Get (m_componentPools e' ! pool) eid) (\<lambda>p.
     Inr (if p \<noteq> None then True else False)))"

fun HasAll :: "'v ECS \<Rightarrow> TypeName list \<Rightarrow> EntityID \<Rightarrow> error + bool" where
  "HasAll e [] eid = Inr True"
| "HasAll e (T # Ts) eid =
     andThen (Has e T eid) (\<lambda>b. if b then HasAll e Ts eid else Inr False)"

definition HasRequired :: "'v ECS \<Rightarrow> TypeName \<Rightarrow> EntityID \<Rightarrow> error + bool" where
  "HasRequired e T eid =
     andThen (GetComponentPool e T False) (\<lambda>(e', pool).
     andThen (Get (m_componentPools e' ! pool) eid) (\<lambda>hasId.
     andThen (BSEECS_ASSERT (hasId \<noteq> None) (MissingRequired T)) (\<lambda>_.
     Inr (hasId \<noteq> None))))"

fun HasAllRequired :: "'v ECS \<Rightarrow> TypeName list \<Rightarrow> EntityID \<Rightarrow> error + bool" where
  "HasAllRequired e [] eid = Inr True"
| "HasAllRequired e (T # Ts) eid =
     andThen (HasRequired e T eid) (\<lambda>b. if b then HasAllRequired e Ts eid else Inr False)"

definition HasRemoved :: "'v ECS \<Rightarrow> TypeName \<Rightarrow> EntityID \<Rightarrow> error + bool" where
  "HasRemoved e T eid =
     andThen (GetComponentPool e T False) (\<lambda>(e', pool).
     andThen (Get (m_componentPools e' ! pool) eid) (\<lambda>hasId.
     let ret = (if hasId \<noteq> None then False else True)
     in andThen (BSEECS_ASSERT ret (SustainedNotRemoved T)) (\<lambda>_. Inr ret)))"

fun HasRemovedAll :: "'v ECS \<Rightarrow> TypeName list \<Rightarrow> EntityID \<Rightarrow> error + bool" where
  "HasRemovedAll e [] eid = Inr True"
| "HasRemovedAll e (T # Ts) eid =
     andThen (HasRemoved e T eid) (\<lambda>b. if b then HasRemovedAll e Ts eid else Inr False)"

text \<open>
  \<open>Add\<close> returns a reference to the stored component: the model returns the dense index of
  the stored value in the pool of \<open>T\<close>, and the new engine.
\<close>

definition Add ::
  "'v ECS \<Rightarrow> TypeName \<Rightarrow> TypeName list \<Rightarrow> EntityID \<Rightarrow> 'v \<Rightarrow> error + (nat \<times> 'v ECS)" where
  "Add e T RequiredComponents eid component =
     andThen (BSEECS_ASSERT_VALID_ENTITY e eid) (\<lambda>_.
     andThen (GetComponentPool e T True) (\<lambda>(e1, pool).
     andThen (Get (m_componentPools e1 ! pool) eid) (\<lambda>present.
     andThen (BSEECS_ASSERT (present = None) AlreadyHasComponent) (\<lambda>_.
     andThen (GetMask e1 RequiredComponents) (\<lambda>incomingCompMask.
     andThen (case GetRequiredComponent e1 T of None \<Rightarrow> Inl UndefinedBehaviour
              | Some m \<Rightarrow> Inr m) (\<lambda>requiredCompMask.
     let resultDiff = incomingCompMask XOR requiredCompMask
     in andThen (BSEECS_ASSERT (resultDiff = 0) RequiredMismatch) (\<lambda>_.
        andThen (HasAllRequired e1 RequiredComponents eid) (\<lambda>requiredSatisfied.
        andThen (BSEECS_ASSERT requiredSatisfied MissingSomeRequired) (\<lambda>_.
        andThen (Set (m_componentPools e1 ! pool) eid component) (\<lambda>(index, pool').
        Inr (index, e1\<lparr>m_componentPools := (m_componentPools e1)[pool := pool']\<rparr>)))))))))))"

definition ECS_Get :: "'v ECS \<Rightarrow> TypeName \<Rightarrow> EntityID \<Rightarrow> error + 'v" where
  "ECS_Get e T eid =
     andThen (BSEECS_ASSERT_VALID_ENTITY e eid) (\<lambda>_.
     andThen (GetComponentPool e T False) (\<lambda>(e', pool).
     andThen (Get (m_componentPools e' ! pool) eid) (\<lambda>component.
     case component of None \<Rightarrow> Inl (Abort MissingComponent) | Some v \<Rightarrow> Inr v)))"

definition Remove :: "'v ECS \<Rightarrow> TypeName \<Rightarrow> TypeName list \<Rightarrow> EntityID \<Rightarrow> error + 'v ECS" where
  "Remove e T SustainedComponents eid =
     andThen (BSEECS_ASSERT_VALID_ENTITY e eid) (\<lambda>_.
     andThen (GetComponentPool e T False) (\<lambda>(e1, pool).
     andThen (Get (m_componentPools e1 ! pool) eid) (\<lambda>present.
     andThen (BSEECS_ASSERT (present \<noteq> None) NoComponentToRemove) (\<lambda>_.
     andThen (GetMask e1 SustainedComponents) (\<lambda>incomingCompMask.
     andThen (case GetSustainedComponent e1 T of None \<Rightarrow> Inl UndefinedBehaviour
              | Some m \<Rightarrow> Inr m) (\<lambda>sustainedCompMask.
     let resultDiff = incomingCompMask XOR sustainedCompMask
     in andThen (BSEECS_ASSERT (resultDiff = 0) SustainedMismatch) (\<lambda>_.
        andThen (HasRemovedAll e1 SustainedComponents eid) (\<lambda>allSustainedRemoved.
        andThen (BSEECS_ASSERT allSustainedRemoved DeleteSustainedFirst) (\<lambda>_.
        andThen (Delete (m_componentPools e1 ! pool) eid) (\<lambda>pool'.
        Inr (e1\<lparr>m_componentPools := (m_componentPools e1)[pool := pool']\<rparr>)))))))))))"

section \<open>Sequences of calls\<close>

text \<open>A client of one sparse set calls \<open>Set\<close>, \<open>Delete\<close> and \<open>Clear\<close> in any order.\<close>

datatype 'v sparse_call = CallSet EntityID 'v | CallDelete EntityID | CallClear

fun do_sparse_call :: "'v SparseSet \<Rightarrow> 'v sparse_call \<Rightarrow> error + 'v SparseSet" where
  "do_sparse_call s (CallSet eid obj) = andThen (Set s eid obj) (\<lambda>(index, s'). Inr s')"
| "do_sparse_call s (CallDelete eid) = Delete s eid"
| "do_sparse_call s CallClear = Inr (Clear s)"

fun do_sparse_calls :: "'v SparseSet \<Rightarrow> 'v sparse_call list \<Rightarrow> error + 'v SparseSet" where
  "do_sparse_calls s [] = Inr s"
| "do_sparse_calls s (c # cs) = andThen (do_sparse_call s c) (\<lambda>s'. do_sparse_calls s' cs)"

text \<open>
  A client of the allocator calls \<open>CreateEntity\<close> and \<open>DeleteEntity\<close>. Next to the engine the
  run keeps the ids of the live entities: an entity is live from the \<open>CreateEntity\<close> that
  returned its id to the \<open>DeleteEntity\<close> that destroys it. \<open>DeleteEntity\<close> resets the handle
  it is given; the client may hold copies of it.
\<close>

datatype entity_call = CallCreateEntity string | CallDeleteEntity EntityID

fun do_entity_call ::
  "'v ECS \<times> EntityID list \<Rightarrow> entity_call \<Rightarrow> error + ('v ECS \<times> EntityID list)" where
  "do_entity_call (e, live) (CallCreateEntity name) =
     andThen (CreateEntity e name) (\<lambda>(eid, e'). Inr (e', eid # live))"
| "do_entity_call (e, live) (CallDeleteEntity eid) =
     andThen (DeleteEntity e eid) (\<lambda>(handle, e'). Inr (e', remove1 eid live))"

fun do_entity_calls ::
  "'v ECS \<times> EntityID list \<Rightarrow> entity_call list \<Rightarrow> error + ('v ECS \<times> EntityID list)" where
  "do_entity_calls st [] = Inr st"
| "do_entity_calls st (c # cs) = andThen (do_entity_call st c) (\<lambda>st'. do_entity_calls st' cs)"

text \<open>\<open>deletes_live st cs\<close>: every \<open>DeleteEntity\<close> of the run is given the id of a live entity.\<close>

fun deletes_live :: "'v ECS \<times> EntityID list \<Rightarrow> entity_call list \<Rightarrow> bool" where
  "deletes_live st [] = True"
| "deletes_live st (c # cs) =
     ((case c of CallCreateEntity name \<Rightarrow> True | CallDeleteEntity eid \<Rightarrow> eid \<in> set (snd st)) \<and>
      (case do_entity_call st c of Inl err \<Rightarrow> True | Inr st' \<Rightarrow> deletes_live st' cs))"

text \<open>\<open>CreateEntities e names\<close> creates one entity per name, in order, and collects the ids.\<close>

fun CreateEntities :: "'v ECS \<Rightarrow> string list \<Rightarrow> error + (EntityID list \<times> 'v ECS)" where
  "CreateEntities e [] = Inr ([], e)"
| "CreateEntities e (name # names) =
     andThen (CreateEntity e name) (\<lambda>(eid, e').
     andThen (CreateEntities e' names) (\<lambda>(eids, e''). Inr (eid # eids, e'')))"

text \<open>
  A client of the engine calls \<open>RegisterComponent\<close>, \<open>CreateEntity\<close>, \<open>DeleteEntity\<close>, \<open>Add\<close>
  and \<open>Remove\<close> in any order; the values the calls return are dropped.
\<close>

datatype 'v ecs_call =
    CallRegisterComponent TypeName "TypeName list"
  | CallCreate string
  | CallDestroy EntityID
  | CallAdd TypeName "TypeName list" EntityID 'v
  | CallRemove TypeName "TypeName list" EntityID

fun do_ecs_call :: "'v ECS \<Rightarrow> 'v ecs_call \<Rightarrow> error + 'v ECS" where
  "do_ecs_call e (CallRegisterComponent T Components) = RegisterComponent e T Components"
| "do_ecs_call e (CallCreate name) = andThen (CreateEntity e name) (\<lambda>(eid, e'). Inr e')"
| "do_ecs_call e (CallDestroy eid) = andThen (DeleteEntity e eid) (\<lambda>(handle, e'). Inr e')"
| "do_ecs_call e (CallAdd T RequiredComponents eid component) =
     andThen (Add e T RequiredComponents eid component) (\<lambda>(index, e'). Inr e')"
| "do_ecs_call e (CallRemove T SustainedComponents eid) = Remove e T SustainedComponents eid"

fun do_ecs_calls :: "'v ECS \<Rightarrow> 'v ecs_call list \<Rightarrow> error + 'v ECS" where
  "do_ecs_calls e [] = Inr e"
| "do_ecs_calls e (c # cs) = andThen (do_ecs_call e c) (\<lambda>e'. do_ecs_calls e' cs)"

section \<open>Invariants\<close>

text \<open>
  The two invariants of the specification: the dense vector and the dense-to-entity vector
  have one length, and the sparse entry of the entity of slot \<open>i\<close> is \<open>i\<close>.
\<close>

definition dense_sparse_consistent :: "'v SparseSet \<Rightarrow> bool" where
  "dense_sparse_consistent s \<longleftrightarrow>
     length (m_dense s) = length (m_denseToEntity s) \<and>
     (\<forall>i < length (m_denseToEntity s). GetDenseIndex s (m_denseToEntity s ! i) = Inr i)"

text \<open>
  The sparse sets that the constructor and the calls produce satisfy more: a sparse entry
  other than the tombstone is the index of a dense slot of that very entity.
\<close>

definition SparseSet_wf :: "'v SparseSet \<Rightarrow> bool" where
  "SparseSet_wf s \<longleftrightarrow>
     dense_sparse_consistent s \<and>
     length (m_dense s) \<le> vector_max_size \<and>
     (\<forall>eid n. GetDenseIndex s eid = Inr n \<longrightarrow> n \<noteq> tombstone \<longrightarrow>
        n < length (m_denseToEntity s) \<and> m_denseToEntity s ! n = eid)"

text \<open>
  The engines that the facade produces: every registered bit position has its pool, every
  pool is a well-formed sparse set of entities below the high-water mark, and the mark is
  within the capacity.
\<close>

definition ECS_wf :: "'v ECS \<Rightarrow> bool" where
  "ECS_wf e \<longleftrightarrow>
     length (m_componentPools e) \<le> MAX_COMPONENTS \<and>
     (\<forall>T info. m_componentBitPosition e T = Some info \<longrightarrow>
        m_bitPosition info < length (m_componentPools e)) \<and>
     (\<forall>p \<in> set (m_componentPools e).
        SparseSet_wf p \<and> (\<forall>eid \<in> set (m_denseToEntity p). eid < m_maxEntityID e)) \<and>
     unat (m_maxEntityID e) \<le> MAX_ENTITIES"

text \<open>
  The state of the allocator next to the ids of the live entities: no id is live twice, no
  id is in the free pool twice, no id is both live and free, and every id that was ever
  issued is below the high-water mark.
\<close>

definition allocator_inv :: "'v ECS \<times> EntityID list \<Rightarrow> bool" where
  "allocator_inv st \<longleftrightarrow>
     distinct (snd st) \<and> distinct (m_availableEntities (fst st)) \<and>
     set (snd st) \<inter> set (m_availableEntities (fst st)) = {} \<and>
     (\<forall>x \<in> set (snd st) \<union> set (m_availableEntities (fst st)). x < m_maxEntityID (fst st)) \<and>
     unat (m_maxEntityID (fst st)) \<le> MAX_ENTITIES"

text \<open>
  \<open>holds_every e eid R\<close>: the entity holds every registered component type whose bit is in
  the mask \<open>R\<close>; \<open>holds_none e eid S\<close>: it holds none of them.
\<close>

definition holds_every :: "'v ECS \<Rightarrow> EntityID \<Rightarrow> ComponentMask \<Rightarrow> bool" where
  "holds_every e eid R \<longleftrightarrow>
     (\<forall>C info. m_componentBitPosition e C = Some info \<longrightarrow> bit R (m_bitPosition info) \<longrightarrow>
        Has e C eid = Inr True)"

definition holds_none :: "'v ECS \<Rightarrow> EntityID \<Rightarrow> ComponentMask \<Rightarrow> bool" where
  "holds_none e eid S \<longleftrightarrow>
     (\<forall>C info. m_componentBitPosition e C = Some info \<longrightarrow> bit S (m_bitPosition info) \<longrightarrow>
        Has e C eid = Inr False)"

text \<open>The entry of the paged sparse array for an entity, the tombstone where there is none.\<close>

definition sparse_entry :: "nat list list \<Rightarrow> EntityID \<Rightarrow> nat" where
  "sparse_entry pages eid =
     (if unat eid div SPARSE_MAX_SIZE < length pages \<and>
         unat eid mod SPARSE_MAX_SIZE < length (pages ! (unat eid div SPARSE_MAX_SIZE))
      then pages ! (unat eid div SPARSE_MAX_SIZE) ! (unat eid mod SPARSE_MAX_SIZE)
      else tombstone)"

text \<open>The paged sparse array after \<open>SetDenseIndex\<close> has stored an entry.\<close>

definition sparse_store :: "nat list list \<Rightarrow> EntityID \<Rightarrow> nat \<Rightarrow> nat list list" where
  "sparse_store pages eid n =
     (let page = unat eid div SPARSE_MAX_SIZE;
          slot = unat eid mod SPARSE_MAX_SIZE;
          pages1 = pages @ replicate (page + 1 - length pages) [];
          sparse = pages1 ! page;
          sparse1 = sparse @ replicate (slot + 1 - length sparse) tombstone
      in pages1[page := sparse1[slot := n]])"

section \<open>An example engine\<close>

text \<open>
  Four engines used to instantiate the theorems. \<open>Chassis\<close> is registered first (bit 0),
  \<open>Engine\<close> second (bit 1) with \<open>Chassis\<close> as its required component, so the sustained mask
  of \<open>Chassis\<close> holds the bit of \<open>Engine\<close>. Entities 0, 1 and 2 are created. In
  \<open>cars_with_chassis\<close> each of them holds a \<open>Chassis\<close>; in \<open>cars_with_engine\<close> entity 0 holds an
  \<open>Engine\<close> as well; in \<open>cars_engine_removed\<close> that \<open>Engine\<close> has been removed again. Each is the
  result of a run of facade calls from the new engine.
\<close>

definition cars_created :: "nat ECS" where
  "cars_created =
     \<lparr>m_availableEntities = [], m_entityNames = Map.empty,
      m_componentPools = [SparseSet_new, SparseSet_new],
      m_componentBitPosition =
        [''Engine'' \<mapsto> \<lparr>m_bitPosition = 1, m_requiredComponents = 1,
                          m_isRequiredInComponents = 0\<rparr>,
         ''Chassis'' \<mapsto> \<lparr>m_bitPosition = 0, m_requiredComponents = 0,
                           m_isRequiredInComponents = 2\<rparr>],
      m_maxEntityID = 3\<rparr>"

definition cars_with_chassis :: "nat ECS" where
  "cars_with_chassis =
     cars_created\<lparr>m_componentPools :=
       [\<lparr>m_sparsePages = [[0, 1, 2]], m_dense = [40, 41, 42], m_denseToEntity = [0, 1, 2]\<rparr>,
        SparseSet_new]\<rparr>"

definition cars_with_engine :: "nat ECS" where
  "cars_with_engine =
     cars_created\<lparr>m_componentPools :=
       [\<lparr>m_sparsePages = [[0, 1, 2]], m_dense = [40, 41, 42], m_denseToEntity = [0, 1, 2]\<rparr>,
        \<lparr>m_sparsePages = [[0]], m_dense = [60], m_denseToEntity = [0]\<rparr>]\<rparr>"

definition cars_engine_removed :: "nat ECS" where
  "cars_engine_removed =
     cars_created\<lparr>m_componentPools :=
       [\<lparr>m_sparsePages = [[0, 1, 2]], m_dense = [40, 41, 42], m_denseToEntity = [0, 1, 2]\<rparr>,
        \<lparr>m_sparsePages = [[tombstone]], m_dense = [], m_denseToEntity = []\<rparr>]\<rparr>"

section \<open>The error monad and the sparse array\<close>

lemma andThen_Inr [simp]: "andThen (Inr x) f = f x"
  by (simp add: andThen_def)

lemma andThen_Inl [simp]: "andThen (Inl e) f = Inl e"
  by (simp add: andThen_def)

lemma andThen_eq_Inr_iff: "andThen m f = Inr y \<longleftrightarrow> (\<exists>x. m = Inr x \<and> f x = Inr y)"
  by (cases m) simp_all

lemma BSEECS_ASSERT_simps [simp]:
  "BSEECS_ASSERT True msg = Inr ()"
  "BSEECS_ASSERT False msg = Inl (Abort msg)"
  by (simp_all add: BSEECS_ASSERT_def)

lemma GetDenseIndex_entry: "GetDenseIndex s eid = Inr (sparse_entry (m_sparsePages s) eid)"
  by (simp add: GetDenseIndex_def sparse_entry_def vec_at_def Let_def)

lemma entity_page_slot_eq:
  "unat (a :: EntityID) div SPARSE_MAX_SIZE = unat b div SPARSE_MAX_SIZE \<Longrightarrow>
   unat a mod SPARSE_MAX_SIZE = unat b mod SPARSE_MAX_SIZE \<Longrightarrow> a = b"
proof -
  assume d: "unat a div SPARSE_MAX_SIZE = unat b div SPARSE_MAX_SIZE"
    and m: "unat a mod SPARSE_MAX_SIZE = unat b mod SPARSE_MAX_SIZE"
  have "unat a = unat b"
    using d m by (metis div_mult_mod_eq)
  then show "a = b" by (simp add: word_unat_eq_iff)
qed

lemma nth_Cons_replicate: "i < Suc n \<Longrightarrow> (x # replicate n x) ! i = x"
  by (cases i) simp_all


lemma SetDenseIndex_store:
  "SetDenseIndex s eid n = Inr (s\<lparr>m_sparsePages := sparse_store (m_sparsePages s) eid n\<rparr>)"
  by (auto simp add: SetDenseIndex_def sparse_store_def vec_at_def vec_assign_def vec_resize_def Let_def nth_append)

lemma sparse_entry_store:
  "sparse_entry (sparse_store pages eid n) eid' =
     (if eid' = eid then n else sparse_entry pages eid')"
proof (cases "eid' = eid")
  case True
  then show ?thesis
    by (auto simp add: sparse_entry_def sparse_store_def Let_def nth_append)
next
  case False
  then have ne: "unat eid' div SPARSE_MAX_SIZE \<noteq> unat eid div SPARSE_MAX_SIZE \<or>
     unat eid' mod SPARSE_MAX_SIZE \<noteq> unat eid mod SPARSE_MAX_SIZE"
    using entity_page_slot_eq by blast
  show ?thesis
    using False ne
    by (auto simp add: sparse_entry_def sparse_store_def Let_def nth_append nth_list_update
        nth_Cons_replicate)
qed

section \<open>\<open>Set\<close> keeps a sparse set well formed\<close>

lemma SparseSet_wf_entry:
  "SparseSet_wf s \<longleftrightarrow>
     length (m_dense s) = length (m_denseToEntity s) \<and>
     length (m_dense s) \<le> vector_max_size \<and>
     (\<forall>i < length (m_denseToEntity s). sparse_entry (m_sparsePages s) (m_denseToEntity s ! i) = i) \<and>
     (\<forall>eid. sparse_entry (m_sparsePages s) eid \<noteq> tombstone \<longrightarrow>
        sparse_entry (m_sparsePages s) eid < length (m_denseToEntity s) \<and>
        m_denseToEntity s ! sparse_entry (m_sparsePages s) eid = eid)"
  by (auto simp add: SparseSet_wf_def dense_sparse_consistent_def GetDenseIndex_entry)

lemma vector_max_size_less_tombstone: "vector_max_size < tombstone"
  by (simp add: vector_max_size_def tombstone_def)

lemma wf_slot_not_tombstone:
  "SparseSet_wf s \<Longrightarrow> i < length (m_denseToEntity s) \<Longrightarrow> i \<noteq> tombstone"
  using vector_max_size_less_tombstone by (auto simp add: SparseSet_wf_entry)

lemma wf_absent_not_in_dense:
  assumes "SparseSet_wf s" and "sparse_entry (m_sparsePages s) eid = tombstone"
  shows "eid \<notin> set (m_denseToEntity s)"
proof
  assume "eid \<in> set (m_denseToEntity s)"
  then obtain i where i: "i < length (m_denseToEntity s)" "m_denseToEntity s ! i = eid"
    by (auto simp add: in_set_conv_nth)
  with assms(1) have "sparse_entry (m_sparsePages s) eid = i"
    by (auto simp add: SparseSet_wf_entry)
  with assms i show False
    using wf_slot_not_tombstone [of s i] by simp
qed

lemma wf_distinct: 
  assumes "SparseSet_wf s" shows "distinct (m_denseToEntity s)"
proof -
  have "\<And>i j. i < length (m_denseToEntity s) \<Longrightarrow> j < length (m_denseToEntity s) \<Longrightarrow>
     m_denseToEntity s ! i = m_denseToEntity s ! j \<Longrightarrow> i = j"
    using assms by (metis SparseSet_wf_entry)
  then show ?thesis
    by (auto simp add: distinct_conv_nth)
qed

lemma SparseSet_new_wf: "SparseSet_wf SparseSet_new"
  by (simp add: SparseSet_wf_entry SparseSet_new_def sparse_entry_def)

lemma Clear_wf: "SparseSet_wf (Clear s)"
  by (simp add: SparseSet_wf_entry Clear_def sparse_entry_def)

lemma Set_present:
  assumes "SparseSet_wf s" and "sparse_entry (m_sparsePages s) eid \<noteq> tombstone"
  shows "Set s eid obj =
           Inr (sparse_entry (m_sparsePages s) eid,
                s\<lparr>m_dense := (m_dense s)[sparse_entry (m_sparsePages s) eid := obj]\<rparr>)"
proof -
  let ?i = "sparse_entry (m_sparsePages s) eid"
  have i: "?i < length (m_denseToEntity s)" "m_denseToEntity s ! ?i = eid"
    and len: "length (m_dense s) = length (m_denseToEntity s)"
    using assms by (auto simp add: SparseSet_wf_entry)
  have "(m_denseToEntity s)[?i := eid] = m_denseToEntity s"
    using i by (metis list_update_id)
  then show ?thesis
    using assms(2) i len
    by (simp add: Set_def GetDenseIndex_entry vec_assign_def)
qed

lemma Set_absent:
  assumes "sparse_entry (m_sparsePages s) eid = tombstone"
    and "length (m_dense s) < vector_max_size" and "length (m_denseToEntity s) < vector_max_size"
  shows "Set s eid obj =
           Inr (length (m_dense s),
                s\<lparr>m_sparsePages := sparse_store (m_sparsePages s) eid (length (m_dense s)),
                  m_dense := m_dense s @ [obj],
                  m_denseToEntity := m_denseToEntity s @ [eid]\<rparr>)"
  using assms
  by (simp add: Set_def GetDenseIndex_entry SetDenseIndex_store vec_push_back_def)

lemma Set_absent_full:
  assumes "sparse_entry (m_sparsePages s) eid = tombstone"
    and "\<not> (length (m_dense s) < vector_max_size \<and> length (m_denseToEntity s) < vector_max_size)"
  shows "Set s eid obj = Inl LengthError"
  using assms
  by (auto simp add: Set_def GetDenseIndex_entry SetDenseIndex_store vec_push_back_def)

lemma Set_wf:
  assumes wf: "SparseSet_wf s" and set: "Set s eid obj = Inr (i, s')"
  shows "SparseSet_wf s'"
proof (cases "sparse_entry (m_sparsePages s) eid = tombstone")
  case False
  with wf set have "s' = s\<lparr>m_dense := (m_dense s)[sparse_entry (m_sparsePages s) eid := obj]\<rparr>"
    by (auto simp add: Set_present)
  with wf show ?thesis
    by (simp add: SparseSet_wf_entry)
next
  case True
  define pages where "pages = m_sparsePages s"
  define d2e where "d2e = m_denseToEntity s"
  have room: "length (m_dense s) < vector_max_size \<and> length d2e < vector_max_size"
    using Set_absent_full [OF True] set by (fastforce simp add: d2e_def)
  have len: "length (m_dense s) = length d2e"
    and fwd: "\<And>j. j < length d2e \<Longrightarrow> sparse_entry pages (d2e ! j) = j"
    and bwd: "\<And>x. sparse_entry pages x \<noteq> tombstone \<Longrightarrow>
        sparse_entry pages x < length d2e \<and> d2e ! sparse_entry pages x = x"
    using wf by (simp_all add: SparseSet_wf_entry pages_def d2e_def)
  have s': "s' = s\<lparr>m_sparsePages := sparse_store pages eid (length d2e),
                  m_dense := m_dense s @ [obj], m_denseToEntity := d2e @ [eid]\<rparr>"
    using True set room len by (auto simp add: Set_absent pages_def d2e_def)
  have entry': "\<And>x. sparse_entry (m_sparsePages s') x =
      (if x = eid then length d2e else sparse_entry pages x)"
    by (simp add: s' sparse_entry_store)
  have d2e': "m_denseToEntity s' = d2e @ [eid]"
    by (simp add: s')
  have notin: "eid \<notin> set d2e"
    using wf_absent_not_in_dense [OF wf True] by (simp add: d2e_def)
  show ?thesis
    unfolding SparseSet_wf_entry
  proof (intro conjI allI impI)
    show "length (m_dense s') = length (m_denseToEntity s')"
      using len by (simp add: s')
    show "length (m_dense s') \<le> vector_max_size"
      using room by (simp add: s')
  next
    fix j assume "j < length (m_denseToEntity s')"
    then have j: "j < length d2e \<or> j = length d2e" by (auto simp add: d2e')
    then show "sparse_entry (m_sparsePages s') (m_denseToEntity s' ! j) = j"
    proof
      assume jl: "j < length d2e"
      then have "d2e ! j \<noteq> eid" using notin by (metis nth_mem)
      then show ?thesis using jl fwd [OF jl] by (simp add: entry' d2e' nth_append)
    next
      assume "j = length d2e"
      then show ?thesis by (simp add: entry' d2e')
    qed
  next
    fix x assume x: "sparse_entry (m_sparsePages s') x \<noteq> tombstone"
    have "sparse_entry (m_sparsePages s') x < length (m_denseToEntity s') \<and>
          m_denseToEntity s' ! sparse_entry (m_sparsePages s') x = x"
    proof (cases "x = eid")
      case True
      then show ?thesis by (simp add: entry' d2e')
    next
      case False
      then have "sparse_entry pages x \<noteq> tombstone" using x by (simp add: entry')
      then show ?thesis using False bwd [of x] by (simp add: entry' d2e' nth_append)
    qed
    then show "sparse_entry (m_sparsePages s') x < length (m_denseToEntity s')"
      and "m_denseToEntity s' ! sparse_entry (m_sparsePages s') x = x" by simp_all
  qed
qed

section \<open>\<open>Delete\<close> keeps a sparse set well formed\<close>

lemma swap_back_pop_back:
  assumes "i < length xs"
  shows "andThen (vec_swap_back xs i) vec_pop_back = Inr (butlast (xs[i := last xs]))"
proof -
  have ne: "xs \<noteq> []" using assms by auto
  have "butlast ((xs[i := last xs])[length xs - 1 := xs ! i]) = butlast (xs[i := last xs])"
    using ne by (simp add: butlast_list_update)
  then show ?thesis
    using assms ne by (simp add: vec_swap_back_def vec_back_def vec_at_def vec_assign_def vec_pop_back_def)
qed

lemma swap_back_Inr:
  assumes "i < length xs"
  shows "\<exists>ys. vec_swap_back xs i = Inr ys \<and> vec_pop_back ys = Inr (butlast (xs[i := last xs]))"
  using swap_back_pop_back [OF assms] by (cases "vec_swap_back xs i") simp_all

lemma Delete_absent:
  assumes "sparse_entry (m_sparsePages s) eid = tombstone \<or> m_dense s = []"
  shows "Delete s eid = Inl (Abort DeleteNonExistent)"
  using assms by (auto simp add: Delete_def GetDenseIndex_entry)

lemma Delete_present:
  assumes wf: "SparseSet_wf s" and present: "sparse_entry (m_sparsePages s) eid \<noteq> tombstone"
  shows "Delete s eid =
     Inr (s\<lparr>m_sparsePages :=
              sparse_store (sparse_store (m_sparsePages s) (last (m_denseToEntity s))
                 (sparse_entry (m_sparsePages s) eid)) eid tombstone,
            m_dense := butlast ((m_dense s)[sparse_entry (m_sparsePages s) eid := last (m_dense s)]),
            m_denseToEntity :=
              butlast ((m_denseToEntity s)
                 [sparse_entry (m_sparsePages s) eid := last (m_denseToEntity s)])\<rparr>)"
proof -
  let ?i = "sparse_entry (m_sparsePages s) eid"
  have i: "?i < length (m_denseToEntity s)" and len: "length (m_dense s) = length (m_denseToEntity s)"
    using wf present by (auto simp add: SparseSet_wf_entry)
  then have ne: "m_dense s \<noteq> []" "m_denseToEntity s \<noteq> []" by auto
  obtain ds where ds: "vec_swap_back (m_dense s) ?i = Inr ds"
      "vec_pop_back ds = Inr (butlast ((m_dense s)[?i := last (m_dense s)]))"
    using swap_back_Inr [of ?i "m_dense s"] i len by auto
  obtain es where es: "vec_swap_back (m_denseToEntity s) ?i = Inr es"
      "vec_pop_back es = Inr (butlast ((m_denseToEntity s)[?i := last (m_denseToEntity s)]))"
    using swap_back_Inr [of ?i "m_denseToEntity s"] i by auto
  show ?thesis
    using present ne ds es
    by (simp add: Delete_def GetDenseIndex_entry SetDenseIndex_store vec_back_def)
qed

lemma Delete_wf:
  assumes wf: "SparseSet_wf s" and del: "Delete s eid = Inr s'"
  shows "SparseSet_wf s'"
proof -
  define pages where "pages = m_sparsePages s"
  define d2e where "d2e = m_denseToEntity s"
  define k where "k = sparse_entry pages eid"
  define lastE where "lastE = last d2e"
  have present: "k \<noteq> tombstone"
    using del Delete_absent [of s eid] by (auto simp add: k_def pages_def)
  have len: "length (m_dense s) = length d2e" and max: "length (m_dense s) \<le> vector_max_size"
    and fwd: "\<And>j. j < length d2e \<Longrightarrow> sparse_entry pages (d2e ! j) = j"
    and bwd: "\<And>x. sparse_entry pages x \<noteq> tombstone \<Longrightarrow>
        sparse_entry pages x < length d2e \<and> d2e ! sparse_entry pages x = x"
    using wf by (simp_all add: SparseSet_wf_entry pages_def d2e_def)
  have k: "k < length d2e" "d2e ! k = eid"
    using bwd [of eid] present by (simp_all add: k_def)
  then have ne: "d2e \<noteq> []" by auto
  have lastE: "lastE = d2e ! (length d2e - 1)"
    using ne by (simp add: lastE_def last_conv_nth)
  have last_entry: "sparse_entry pages lastE = length d2e - 1"
    using fwd [of "length d2e - 1"] ne by (simp add: lastE)
  have s': "s' = s\<lparr>m_sparsePages := sparse_store (sparse_store pages lastE k) eid tombstone,
            m_dense := butlast ((m_dense s)[k := last (m_dense s)]),
            m_denseToEntity := butlast (d2e[k := lastE])\<rparr>"
    using Delete_present [OF wf, of eid] present del
    by (simp add: k_def pages_def d2e_def lastE_def)
  have entry': "\<And>x. sparse_entry (m_sparsePages s') x =
      (if x = eid then tombstone else if x = lastE then k else sparse_entry pages x)"
    by (simp add: s' sparse_entry_store)
  have d2e': "m_denseToEntity s' = butlast (d2e[k := lastE])"
    by (simp add: s')
  have len': "length (m_denseToEntity s') = length d2e - 1"
    by (simp add: d2e')
  have nth': "\<And>j. j < length d2e - 1 \<Longrightarrow>
      m_denseToEntity s' ! j = (if j = k then lastE else d2e ! j)"
    by (simp add: d2e' nth_butlast nth_list_update)
  have lastE_eid: "lastE = eid \<longleftrightarrow> k = length d2e - 1"
  proof
    assume "lastE = eid"
    then have "sparse_entry pages lastE = k" by (simp only: k_def)
    then show "k = length d2e - 1" by (simp only: last_entry)
  next
    assume "k = length d2e - 1"
    then have "d2e ! k = lastE" by (simp only: lastE)
    then show "lastE = eid" by (simp only: k(2))
  qed
  show ?thesis
    unfolding SparseSet_wf_entry
  proof (intro conjI allI impI)
    show "length (m_dense s') = length (m_denseToEntity s')"
      using len by (simp add: s')
    show "length (m_dense s') \<le> vector_max_size"
      using max by (simp add: s')
  next
    fix j assume "j < length (m_denseToEntity s')"
    then have j: "j < length d2e - 1" by (simp add: d2e')
    then have jl: "j < length d2e" by simp
    have ej: "sparse_entry pages (d2e ! j) = j" using jl by (rule fwd)
    show "sparse_entry (m_sparsePages s') (m_denseToEntity s' ! j) = j"
    proof (cases "j = k")
      case True
      then have "lastE \<noteq> eid" using lastE_eid j by auto
      then show ?thesis using True j by (simp add: nth' entry')
    next
      case False
      have "d2e ! j \<noteq> eid" using ej False by (auto simp add: k_def)
      moreover have "d2e ! j \<noteq> lastE" using ej j last_entry by auto
      ultimately show ?thesis using False j ej by (simp add: nth' entry')
    qed
  next
    fix x assume x: "sparse_entry (m_sparsePages s') x \<noteq> tombstone"
    then have xe: "x \<noteq> eid" by (auto simp add: entry')
    have "sparse_entry (m_sparsePages s') x < length (m_denseToEntity s') \<and>
          m_denseToEntity s' ! sparse_entry (m_sparsePages s') x = x"
    proof (cases "x = lastE")
      case True
      then have "k \<noteq> length d2e - 1" using xe lastE_eid by auto
      then have "k < length d2e - 1" using k by simp
      then show ?thesis using True xe by (simp add: entry' nth' len')
    next
      case False
      then have old: "sparse_entry (m_sparsePages s') x = sparse_entry pages x"
        using xe by (simp add: entry')
      then have b: "sparse_entry pages x < length d2e" "d2e ! sparse_entry pages x = x"
        using bwd [of x] x by simp_all
      have "sparse_entry pages x \<noteq> length d2e - 1"
        using b False lastE by auto
      then have lt: "sparse_entry pages x < length d2e - 1" using b by simp
      have "sparse_entry pages x \<noteq> k" using b k xe by auto
      then show ?thesis using lt b by (simp add: old nth' len')
    qed
    then show "sparse_entry (m_sparsePages s') x < length (m_denseToEntity s')"
      and "m_denseToEntity s' ! sparse_entry (m_sparsePages s') x = x" by simp_all
  qed
qed

section \<open>Sequences of sparse-set calls\<close>

lemma Get_entry:
  "SparseSet_wf s \<Longrightarrow>
   Get s eid = Inr (if sparse_entry (m_sparsePages s) eid \<noteq> tombstone
                    then Some (m_dense s ! sparse_entry (m_sparsePages s) eid) else None)"
  by (auto simp add: Get_def GetDenseIndex_entry vec_at_def SparseSet_wf_entry)

lemma Get_unallocated:
  "sparse_entry (m_sparsePages s) eid = tombstone \<Longrightarrow> Get s eid = Inr None"
  by (simp add: Get_def GetDenseIndex_entry)

lemma do_sparse_call_wf:
  "SparseSet_wf s \<Longrightarrow> do_sparse_call s c = Inr s' \<Longrightarrow> SparseSet_wf s'"
proof (cases c)
  case (CallSet eid obj)
  assume "SparseSet_wf s" "do_sparse_call s c = Inr s'"
  then show ?thesis
    using CallSet Set_wf [of s eid obj] by (auto simp add: andThen_eq_Inr_iff)
next
  case (CallDelete eid)
  assume "SparseSet_wf s" "do_sparse_call s c = Inr s'"
  then show ?thesis using CallDelete Delete_wf [of s eid s'] by simp
next
  case CallClear
  assume "do_sparse_call s c = Inr s'"
  then show ?thesis using CallClear Clear_wf [of s] by auto
qed

lemma do_sparse_calls_wf:
  "SparseSet_wf s \<Longrightarrow> do_sparse_calls s cs = Inr s' \<Longrightarrow> SparseSet_wf s'"
proof (induction cs arbitrary: s)
  case Nil
  then show ?case by simp
next
  case (Cons c cs)
  from Cons.prems(2) obtain s1 where s1: "do_sparse_call s c = Inr s1" "do_sparse_calls s1 cs = Inr s'"
    by (auto simp add: andThen_eq_Inr_iff)
  from Cons.prems(1) s1(1) have "SparseSet_wf s1" by (rule do_sparse_call_wf)
  then show ?case using s1(2) by (rule Cons.IH)
qed

lemmas sparse_eval =
  Set_def Get_def Delete_def Clear_def GetDenseIndex_def SetDenseIndex_def
  vec_at_def vec_assign_def vec_resize_def vec_push_back_def vec_back_def vec_pop_back_def
  vec_swap_back_def SPARSE_MAX_SIZE_def vector_max_size_def tombstone_def Let_def

lemma replicate_numeral: "replicate (numeral k) x = x # replicate (pred_numeral k) x"
  by (simp add: numeral_eq_Suc)

lemma list_update_Cons_numeral: "(x # xs)[numeral k := y] = x # xs[pred_numeral k := y]"
  by (simp add: numeral_eq_Suc)

lemmas list_eval = replicate_numeral list_update_Cons_numeral

text \<open>
  Claim C1. Take a well-formed sparse set (the constructor builds one) and run any sequence
  of \<open>Set\<close>, \<open>Delete\<close> and \<open>Clear\<close> calls on it. Whenever the run returns, the dense
  vector and the dense-to-entity vector have the same length, and for every dense slot \<open>i\<close>
  the sparse entry of the entity stored at slot \<open>i\<close> is \<open>i\<close>. Every prefix of a run is a run,
  so this holds after each call. The run of the witness deletes the entity of the last
  dense slot (entity 1002) and one that is not the last (entity 5).
\<close>

theorem sparse_set_invariants:
  assumes "SparseSet_wf s" and "do_sparse_calls s calls = Inr s'"
  shows "length (m_dense s') = length (m_denseToEntity s') \<and>
         (\<forall>i < length (m_denseToEntity s').
            GetDenseIndex s' (m_denseToEntity s' ! i) = Inr i)"
proof -
  have "SparseSet_wf s'" using assms by (rule do_sparse_calls_wf)
  then show ?thesis
    by (simp add: SparseSet_wf_def dense_sparse_consistent_def)
qed

theorem sparse_set_invariants_witness:
  "SparseSet_wf (SparseSet_new :: nat SparseSet) \<and>
   do_sparse_calls (SparseSet_new :: nat SparseSet)
     [CallSet 5 10, CallSet 1002 20, CallDelete 1002, CallSet 7 30, CallDelete 5] =
     Inr \<lparr>m_sparsePages = [[tombstone, tombstone, tombstone, tombstone, tombstone, tombstone,
                               tombstone, 0], [tombstone, tombstone, tombstone]],
           m_dense = [30], m_denseToEntity = [7]\<rparr> \<and>
   length [30 :: nat] = length [7 :: EntityID] \<and>
   GetDenseIndex \<lparr>m_sparsePages = [[tombstone, tombstone, tombstone, tombstone, tombstone,
                     tombstone, tombstone, 0], [tombstone, tombstone, tombstone]],
                   m_dense = [30 :: nat], m_denseToEntity = [7]\<rparr> 7 = Inr 0"
proof -
  have run: "do_sparse_calls (SparseSet_new :: nat SparseSet)
     [CallSet 5 10, CallSet 1002 20, CallDelete 1002, CallSet 7 30, CallDelete 5] =
     Inr \<lparr>m_sparsePages = [[tombstone, tombstone, tombstone, tombstone, tombstone, tombstone,
                               tombstone, 0], [tombstone, tombstone, tombstone]],
           m_dense = [30], m_denseToEntity = [7]\<rparr>"
    by (simp add: sparse_eval SparseSet_new_def list_eval)
  show ?thesis
    using sparse_set_invariants [OF SparseSet_new_wf run] SparseSet_new_wf run by simp
qed

text \<open>
  Claim C7. In a well-formed sparse set, \<open>Set\<close> on an entity that is present (its sparse
  entry \<open>k\<close> is not the tombstone) returns a pointer to dense slot \<open>k\<close>, overwrites the value
  of that slot and nothing else, and leaves the dense index of every entity as it was.
\<close>

theorem Set_overwrite_keeps_dense_index:
  assumes wf: "SparseSet_wf s" and present: "GetDenseIndex s eid = Inr k" "k \<noteq> tombstone"
  shows "\<exists>s'. Set s eid v = Inr (k, s') \<and>
           m_dense s' = (m_dense s)[k := v] \<and> k < length (m_dense s) \<and>
           Get s' eid = Inr (Some v) \<and>
           m_denseToEntity s' = m_denseToEntity s \<and>
           (\<forall>x. GetDenseIndex s' x = GetDenseIndex s x)"
proof -
  have k: "k = sparse_entry (m_sparsePages s) eid"
    using present(1) by (simp add: GetDenseIndex_entry)
  then have ne: "sparse_entry (m_sparsePages s) eid \<noteq> tombstone"
    using present(2) by simp
  have lt: "k < length (m_dense s)"
    using wf ne k by (simp add: SparseSet_wf_entry)
  let ?s' = "s\<lparr>m_dense := (m_dense s)[k := v]\<rparr>"
  have "Set s eid v = Inr (k, ?s')"
    using Set_present [OF wf ne] k by simp
  moreover have "Get ?s' eid = Inr (Some v)"
    using lt present by (simp add: Get_def GetDenseIndex_entry vec_at_def)
  moreover have "\<forall>x. GetDenseIndex ?s' x = GetDenseIndex s x"
    by (simp add: GetDenseIndex_entry)
  ultimately show ?thesis using lt by simp
qed

theorem Set_overwrite_keeps_dense_index_witness:
  "SparseSet_wf \<lparr>m_sparsePages = [[tombstone, tombstone, 1, tombstone, 0]],
                  m_dense = [10 :: nat, 20], m_denseToEntity = [4, 2]\<rparr> \<and>
   GetDenseIndex \<lparr>m_sparsePages = [[tombstone, tombstone, 1, tombstone, 0]],
                  m_dense = [10 :: nat, 20], m_denseToEntity = [4, 2]\<rparr> 4 = Inr 0 \<and>
   0 \<noteq> tombstone \<and>
   Set \<lparr>m_sparsePages = [[tombstone, tombstone, 1, tombstone, 0]],
         m_dense = [10 :: nat, 20], m_denseToEntity = [4, 2]\<rparr> 4 99 =
     Inr (0, \<lparr>m_sparsePages = [[tombstone, tombstone, 1, tombstone, 0]],
               m_dense = [99, 20], m_denseToEntity = [4, 2]\<rparr>) \<and>
   GetDenseIndex \<lparr>m_sparsePages = [[tombstone, tombstone, 1, tombstone, 0]],
                  m_dense = [99 :: nat, 20], m_denseToEntity = [4, 2]\<rparr> 2 = Inr 1"
proof -
  let ?s = "\<lparr>m_sparsePages = [[tombstone, tombstone, 1, tombstone, 0]],
                  m_dense = [10 :: nat, 20], m_denseToEntity = [4, 2]\<rparr>"
  have run: "do_sparse_calls (SparseSet_new :: nat SparseSet) [CallSet 4 10, CallSet 2 20] = Inr ?s"
    by (simp add: sparse_eval SparseSet_new_def list_eval)
  have wf: "SparseSet_wf ?s"
    using SparseSet_new_wf run by (rule do_sparse_calls_wf)
  have present: "GetDenseIndex ?s 4 = Inr 0" "0 \<noteq> tombstone"
    by (simp_all add: sparse_eval)
  show ?thesis
    using Set_overwrite_keeps_dense_index [OF wf present, of 99] wf present
    by (auto simp add: sparse_eval)
qed

section \<open>The registry and the presence checks\<close>

lemma ECS_wf_pool:
  assumes "ECS_wf e" and "m_componentBitPosition e T = Some info"
  shows "m_bitPosition info < length (m_componentPools e)"
    and "m_bitPosition info < MAX_COMPONENTS"
    and "m_bitPosition info \<noteq> tombstone"
    and "SparseSet_wf (m_componentPools e ! m_bitPosition info)"
    and "\<forall>x \<in> set (m_denseToEntity (m_componentPools e ! m_bitPosition info)). x < m_maxEntityID e"
proof -
  show lt: "m_bitPosition info < length (m_componentPools e)"
    using assms by (auto simp add: ECS_wf_def)
  then show c: "m_bitPosition info < MAX_COMPONENTS"
    using assms(1) by (simp add: ECS_wf_def)
  then show "m_bitPosition info \<noteq> tombstone"
    by (simp add: MAX_COMPONENTS_def tombstone_def)
  have "m_componentPools e ! m_bitPosition info \<in> set (m_componentPools e)"
    using lt by simp
  then show "SparseSet_wf (m_componentPools e ! m_bitPosition info)"
    and "\<forall>x \<in> set (m_denseToEntity (m_componentPools e ! m_bitPosition info)). x < m_maxEntityID e"
    using assms(1) by (simp_all add: ECS_wf_def)
qed

lemma GetComponentPool_registered:
  assumes "ECS_wf e" and "m_componentBitPosition e T = Some info"
  shows "GetComponentPool e T r = Inr (e, m_bitPosition info)"
  using ECS_wf_pool(1,3) [OF assms] assms(2)
  by (simp add: GetComponentPool_def GetComponentBitPosition_def vec_at_def)

lemma GetComponentPool_unregistered:
  assumes "m_componentBitPosition e T = None"
  shows "GetComponentPool e T False = Inl (Abort (UnregisteredComponent T))"
  using assms by (simp add: GetComponentPool_def GetComponentBitPosition_def)

lemma Has_registered:
  assumes "ECS_wf e" and "m_componentBitPosition e T = Some info"
  shows "Has e T eid =
    Inr (sparse_entry (m_sparsePages (m_componentPools e ! m_bitPosition info)) eid \<noteq> tombstone)"
  using ECS_wf_pool(4) [OF assms]
  by (simp add: Has_def GetComponentPool_registered [OF assms] Get_entry)

lemma Has_unregistered:
  assumes "m_componentBitPosition e T = None"
  shows "Has e T eid = Inl (Abort (UnregisteredComponent T))"
  by (simp add: Has_def GetComponentPool_unregistered [OF assms])

lemma Has_cases:
  assumes "ECS_wf e"
  shows "(\<exists>b. Has e T eid = Inr b) \<or> Has e T eid = Inl (Abort (UnregisteredComponent T))"
proof (cases "m_componentBitPosition e T")
  case None
  then show ?thesis by (simp add: Has_unregistered)
next
  case (Some info)
  then show ?thesis using assms by (simp add: Has_registered)
qed

lemma HasRequired_Has:
  "HasRequired e T eid =
     (case Has e T eid of Inl err \<Rightarrow> Inl err
      | Inr b \<Rightarrow> if b then Inr True else Inl (Abort (MissingRequired T)))"
  by (auto simp add: HasRequired_def Has_def andThen_def split: sum.splits prod.splits)

lemma HasRemoved_Has:
  "HasRemoved e T eid =
     (case Has e T eid of Inl err \<Rightarrow> Inl err
      | Inr b \<Rightarrow> if b then Inl (Abort (SustainedNotRemoved T)) else Inr True)"
  by (auto simp add: HasRemoved_def Has_def andThen_def Let_def split: sum.splits prod.splits)

lemma HasAllRequired_all:
  "\<forall>C \<in> set Ts. Has e C eid = Inr True \<Longrightarrow> HasAllRequired e Ts eid = Inr True"
  by (induction Ts) (simp_all add: HasRequired_Has)

lemma HasAllRequired_missing:
  assumes "ECS_wf e" and "\<exists>C \<in> set Ts. Has e C eid \<noteq> Inr True"
  shows "\<exists>f. HasAllRequired e Ts eid = Inl (Abort f)"
  using assms(2)
proof (induction Ts)
  case Nil
  then show ?case by simp
next
  case (Cons C Ts)
  show ?case
  proof (cases "Has e C eid = Inr True")
    case True
    with Cons show ?thesis by (simp add: HasRequired_Has)
  next
    case False
    with Has_cases [OF assms(1), of C eid] show ?thesis
      by (auto simp add: HasRequired_Has)
  qed
qed

lemma HasRemovedAll_none:
  "\<forall>C \<in> set Ts. Has e C eid = Inr False \<Longrightarrow> HasRemovedAll e Ts eid = Inr True"
  by (induction Ts) (simp_all add: HasRemoved_Has)

lemma HasRemovedAll_present:
  assumes "ECS_wf e" and "\<exists>C \<in> set Ts. Has e C eid \<noteq> Inr False"
  shows "\<exists>f. HasRemovedAll e Ts eid = Inl (Abort f)"
  using assms(2)
proof (induction Ts)
  case Nil
  then show ?case by simp
next
  case (Cons C Ts)
  show ?case
  proof (cases "Has e C eid = Inr False")
    case True
    with Cons show ?thesis by (simp add: HasRemoved_Has)
  next
    case False
    with Has_cases [OF assms(1), of C eid] show ?thesis
      by (auto simp add: HasRemoved_Has)
  qed
qed

lemma SetComponentBit_registered:
  assumes "ECS_wf e" and "m_componentBitPosition e C = Some info"
  shows "SetComponentBit e C m True = Inr (set_bit (m_bitPosition info) m)"
  using ECS_wf_pool(2,3) [OF assms] assms(2)
  by (simp add: SetComponentBit_def GetComponentBitPosition_def)

lemma SetComponentBit_unregistered:
  assumes "m_componentBitPosition e C = None"
  shows "SetComponentBit e C m v = Inl (Abort (UnregisteredComponent C))"
  using assms by (simp add: SetComponentBit_def GetComponentBitPosition_def)

lemma GetMask_fold_cases:
  assumes "ECS_wf e"
  shows "(\<exists>M. GetMask_fold e m Ts = Inr M \<and>
            (\<forall>C \<in> set Ts. m_componentBitPosition e C \<noteq> None) \<and>
            (\<forall>b. bit M b \<longleftrightarrow> bit m b \<or>
               (\<exists>C \<in> set Ts. \<exists>info. m_componentBitPosition e C = Some info \<and>
                  m_bitPosition info = b))) \<or>
         (\<exists>C \<in> set Ts. GetMask_fold e m Ts = Inl (Abort (UnregisteredComponent C)))"
proof (induction Ts arbitrary: m)
  case Nil
  then show ?case by simp
next
  case (Cons C Ts)
  show ?case
  proof (cases "m_componentBitPosition e C")
    case None
    then show ?thesis by (simp add: SetComponentBit_unregistered)
  next
    case (Some info)
    have step: "GetMask_fold e m (C # Ts) = GetMask_fold e (set_bit (m_bitPosition info) m) Ts"
      using SetComponentBit_registered [OF assms Some] by simp
    have b64: "m_bitPosition info < 64"
      using ECS_wf_pool(2) [OF assms Some] by (simp add: MAX_COMPONENTS_def)
    from Cons [of "set_bit (m_bitPosition info) m"] show ?thesis
    proof
      assume "\<exists>M. GetMask_fold e (set_bit (m_bitPosition info) m) Ts = Inr M \<and>
            (\<forall>C \<in> set Ts. m_componentBitPosition e C \<noteq> None) \<and>
            (\<forall>b. bit M b \<longleftrightarrow> bit (set_bit (m_bitPosition info) m) b \<or>
               (\<exists>C \<in> set Ts. \<exists>info. m_componentBitPosition e C = Some info \<and>
                  m_bitPosition info = b))"
      then obtain M where M: "GetMask_fold e (set_bit (m_bitPosition info) m) Ts = Inr M"
        "\<forall>C \<in> set Ts. m_componentBitPosition e C \<noteq> None"
        "\<And>b. bit M b \<longleftrightarrow> bit (set_bit (m_bitPosition info) m) b \<or>
               (\<exists>C \<in> set Ts. \<exists>info. m_componentBitPosition e C = Some info \<and>
                  m_bitPosition info = b)"
        by blast
      have "\<And>b. bit M b \<longleftrightarrow> bit m b \<or>
               (\<exists>D \<in> set (C # Ts). \<exists>i. m_componentBitPosition e D = Some i \<and>
                  m_bitPosition i = b)"
        using M(3) Some b64 by (auto simp add: bit_set_bit_iff)
      then show ?thesis using M(1,2) Some step by auto
    next
      assume "\<exists>C \<in> set Ts. GetMask_fold e (set_bit (m_bitPosition info) m) Ts =
         Inl (Abort (UnregisteredComponent C))"
      then show ?thesis using step by auto
    qed
  qed
qed

lemma distinct_below_length:
  assumes "distinct xs" and "\<forall>x \<in> set xs. x < (m :: EntityID)"
  shows "length xs \<le> unat m"
proof -
  have "distinct (map unat xs)"
    using assms(1) by (simp add: distinct_map inj_on_def word_unat_eq_iff)
  then have "length xs = card (set (map unat xs))"
    by (metis distinct_card length_map)
  also have "\<dots> \<le> card {..<unat m}"
  proof (rule card_mono)
    show "set (map unat xs) \<subseteq> {..<unat m}"
      using assms(2) by (auto simp add: word_less_nat_alt)
  qed simp
  finally show ?thesis by simp
qed

section \<open>Masks of declared component types\<close>

lemma mask_xor_zero: "(a :: ComponentMask) XOR b = 0 \<longleftrightarrow> a = b"
proof
  assume "a XOR b = 0"
  then have "\<And>n. bit (a XOR b) n = False" by simp
  then have "\<And>n. bit a n = bit b n" by (simp add: bit_xor_iff)
  then show "a = b" by (simp add: bit_eq_iff)
next
  assume "a = b"
  then show "a XOR b = 0" by simp
qed

lemma pool_update_wf:
  assumes "ECS_wf e" and "SparseSet_wf p"
    and "\<forall>x \<in> set (m_denseToEntity p). x < m_maxEntityID e"
  shows "ECS_wf (e\<lparr>m_componentPools := (m_componentPools e)[b := p]\<rparr>)"
proof -
  have old: "\<forall>q \<in> set (m_componentPools e).
      SparseSet_wf q \<and> (\<forall>x \<in> set (m_denseToEntity q). x < m_maxEntityID e)"
    using assms(1) by (simp add: ECS_wf_def)
  have "\<forall>q \<in> set ((m_componentPools e)[b := p]).
      SparseSet_wf q \<and> (\<forall>x \<in> set (m_denseToEntity q). x < m_maxEntityID e)"
  proof
    fix q assume "q \<in> set ((m_componentPools e)[b := p])"
    then have "q = p \<or> q \<in> set (m_componentPools e)"
      using set_update_subset_insert [of "m_componentPools e" b p] by auto
    then show "SparseSet_wf q \<and> (\<forall>x \<in> set (m_denseToEntity q). x < m_maxEntityID e)"
    proof
      assume "q = p"
      then show ?thesis using assms(2,3) by simp
    next
      assume "q \<in> set (m_componentPools e)"
      then show ?thesis using old by simp
    qed
  qed
  then show ?thesis
    using assms(1) by (simp add: ECS_wf_def)
qed

lemma GetMask_Inr:
  assumes "ECS_wf e" and "GetMask e Ts = Inr M"
  shows "\<forall>C \<in> set Ts. m_componentBitPosition e C \<noteq> None"
    and "\<And>b. bit M b \<longleftrightarrow>
           (\<exists>C \<in> set Ts. \<exists>info. m_componentBitPosition e C = Some info \<and> m_bitPosition info = b)"
  using GetMask_fold_cases [OF assms(1), of 0 Ts] assms(2)
  by (auto simp add: GetMask_def)

lemma GetMask_Inl:
  assumes "ECS_wf e" and "GetMask e Ts = Inl err"
  shows "\<exists>C. err = Abort (UnregisteredComponent C)"
  using GetMask_fold_cases [OF assms(1), of 0 Ts] assms(2)
  by (auto simp add: GetMask_def)

lemma Has_same_pool:
  assumes "ECS_wf e" and "m_componentBitPosition e C = Some i" and "m_componentBitPosition e D = Some j"
    and "m_bitPosition i = m_bitPosition j"
  shows "Has e C eid = Has e D eid"
  using assms by (simp add: Has_registered)

lemma holds_every_mask:
  assumes wf: "ECS_wf e" and mask: "GetMask e Ts = Inr M"
  shows "holds_every e eid M \<longleftrightarrow> (\<forall>C \<in> set Ts. Has e C eid = Inr True)"
proof
  assume h: "holds_every e eid M"
  show "\<forall>C \<in> set Ts. Has e C eid = Inr True"
  proof
    fix C assume C: "C \<in> set Ts"
    then obtain info where info: "m_componentBitPosition e C = Some info"
      using GetMask_Inr(1) [OF wf mask] by auto
    then have "bit M (m_bitPosition info)"
      using GetMask_Inr(2) [OF wf mask] C by auto
    then show "Has e C eid = Inr True"
      using h info by (simp add: holds_every_def)
  qed
next
  assume a: "\<forall>C \<in> set Ts. Has e C eid = Inr True"
  show "holds_every e eid M"
    unfolding holds_every_def
  proof (intro allI impI)
    fix D j assume D: "m_componentBitPosition e D = Some j" "bit M (m_bitPosition j)"
    then obtain C i where C: "C \<in> set Ts" "m_componentBitPosition e C = Some i"
        "m_bitPosition i = m_bitPosition j"
      using GetMask_Inr(2) [OF wf mask, of "m_bitPosition j"] by auto
    then have "Has e D eid = Has e C eid"
      using Has_same_pool [OF wf C(2) D(1) C(3)] by simp
    then show "Has e D eid = Inr True" using a C(1) by simp
  qed
qed

lemma holds_none_mask:
  assumes wf: "ECS_wf e" and mask: "GetMask e Ts = Inr M"
  shows "holds_none e eid M \<longleftrightarrow> (\<forall>C \<in> set Ts. Has e C eid = Inr False)"
proof
  assume h: "holds_none e eid M"
  show "\<forall>C \<in> set Ts. Has e C eid = Inr False"
  proof
    fix C assume C: "C \<in> set Ts"
    then obtain info where info: "m_componentBitPosition e C = Some info"
      using GetMask_Inr(1) [OF wf mask] by auto
    then have "bit M (m_bitPosition info)"
      using GetMask_Inr(2) [OF wf mask] C by auto
    then show "Has e C eid = Inr False"
      using h info by (simp add: holds_none_def)
  qed
next
  assume a: "\<forall>C \<in> set Ts. Has e C eid = Inr False"
  show "holds_none e eid M"
    unfolding holds_none_def
  proof (intro allI impI)
    fix D j assume D: "m_componentBitPosition e D = Some j" "bit M (m_bitPosition j)"
    then obtain C i where C: "C \<in> set Ts" "m_componentBitPosition e C = Some i"
        "m_bitPosition i = m_bitPosition j"
      using GetMask_Inr(2) [OF wf mask, of "m_bitPosition j"] by auto
    then have "Has e D eid = Has e C eid"
      using Has_same_pool [OF wf C(2) D(1) C(3)] by simp
    then show "Has e D eid = Inr False" using a C(1) by simp
  qed
qed

lemma valid_entity:
  "eid \<noteq> NULL_ENTITY \<Longrightarrow> eid < m_maxEntityID e \<Longrightarrow> BSEECS_ASSERT_VALID_ENTITY e eid = Inr ()"
  by (simp add: BSEECS_ASSERT_VALID_ENTITY_def)

lemma Add_registered:
  assumes wf: "ECS_wf e" and reg: "m_componentBitPosition e T = Some info"
    and valid: "eid \<noteq> NULL_ENTITY" "eid < m_maxEntityID e"
  shows "Add e T Rs eid v =
    (if Has e T eid = Inr True then Inl (Abort AlreadyHasComponent)
     else andThen (GetMask e Rs) (\<lambda>M.
          if M \<noteq> m_requiredComponents info then Inl (Abort RequiredMismatch)
          else andThen (HasAllRequired e Rs eid) (\<lambda>sat.
               andThen (BSEECS_ASSERT sat MissingSomeRequired) (\<lambda>_.
               andThen (Set (m_componentPools e ! m_bitPosition info) eid v) (\<lambda>(index, pool').
               Inr (index, e\<lparr>m_componentPools :=
                      (m_componentPools e)[m_bitPosition info := pool']\<rparr>))))))"
  using ECS_wf_pool(4) [OF wf reg] reg
  by (auto simp add: Add_def valid_entity [OF valid] GetComponentPool_registered [OF wf reg]
      Has_registered [OF wf reg] Get_entry GetRequiredComponent_def mask_xor_zero Let_def
      intro!: arg_cong2 [where f = andThen] ext)

section \<open>\<open>Add\<close>\<close>

lemma ECS_Get_registered:
  assumes wf: "ECS_wf e" and reg: "m_componentBitPosition e T = Some info"
    and valid: "eid \<noteq> NULL_ENTITY" "eid < m_maxEntityID e"
  shows "ECS_Get e T eid =
    (case Get (m_componentPools e ! m_bitPosition info) eid of
       Inl err \<Rightarrow> Inl err
     | Inr None \<Rightarrow> Inl (Abort MissingComponent)
     | Inr (Some v) \<Rightarrow> Inr v)"
  by (simp add: ECS_Get_def valid_entity [OF valid] GetComponentPool_registered [OF wf reg]
      andThen_def split: sum.splits)

lemma Has_Get:
  assumes wf: "ECS_wf e" and reg: "m_componentBitPosition e T = Some info"
  shows "Has e T eid = Inr b \<longleftrightarrow>
    (if b then \<exists>v. Get (m_componentPools e ! m_bitPosition info) eid = Inr (Some v)
     else Get (m_componentPools e ! m_bitPosition info) eid = Inr None)"
  using ECS_wf_pool(4) [OF wf reg]
  by (auto simp add: Has_registered [OF wf reg] Get_entry)

lemma pool_room:
  assumes wf: "ECS_wf e" and reg: "m_componentBitPosition e T = Some info"
    and valid: "eid < m_maxEntityID e"
    and absent: "sparse_entry (m_sparsePages (m_componentPools e ! m_bitPosition info)) eid = tombstone"
  shows "length (m_denseToEntity (m_componentPools e ! m_bitPosition info)) < vector_max_size"
    and "length (m_dense (m_componentPools e ! m_bitPosition info)) < vector_max_size"
proof -
  let ?p = "m_componentPools e ! m_bitPosition info"
  have pwf: "SparseSet_wf ?p" using ECS_wf_pool(4) [OF wf reg] .
  have "distinct (eid # m_denseToEntity ?p)"
    using wf_distinct [OF pwf] wf_absent_not_in_dense [OF pwf absent] by simp
  moreover have "\<forall>x \<in> set (eid # m_denseToEntity ?p). x < m_maxEntityID e"
    using ECS_wf_pool(5) [OF wf reg] valid by simp
  ultimately have "length (eid # m_denseToEntity ?p) \<le> unat (m_maxEntityID e)"
    by (rule distinct_below_length)
  moreover have "unat (m_maxEntityID e) \<le> MAX_ENTITIES"
    using wf by (simp add: ECS_wf_def)
  ultimately show "length (m_denseToEntity ?p) < vector_max_size"
    by (simp add: MAX_ENTITIES_def vector_max_size_def)
  then show "length (m_dense ?p) < vector_max_size"
    using pwf by (simp add: SparseSet_wf_entry)
qed

lemma Add_stores:
  assumes wf: "ECS_wf e" and reg: "m_componentBitPosition e T = Some info"
    and valid: "eid \<noteq> NULL_ENTITY" "eid < m_maxEntityID e"
    and absent: "Has e T eid = Inr False"
    and mask: "GetMask e Rs = Inr (m_requiredComponents info)"
    and held: "holds_every e eid (m_requiredComponents info)"
  shows "\<exists>p'. Set (m_componentPools e ! m_bitPosition info) eid v =
               Inr (length (m_dense (m_componentPools e ! m_bitPosition info)), p') \<and>
          Add e T Rs eid v =
            Inr (length (m_dense (m_componentPools e ! m_bitPosition info)),
                 e\<lparr>m_componentPools := (m_componentPools e)[m_bitPosition info := p']\<rparr>)"
proof -
  let ?p = "m_componentPools e ! m_bitPosition info"
  have entry: "sparse_entry (m_sparsePages ?p) eid = tombstone"
    using absent by (simp add: Has_registered [OF wf reg])
  have all: "HasAllRequired e Rs eid = Inr True"
    using held holds_every_mask [OF wf mask] by (simp add: HasAllRequired_all)
  have set: "Set ?p eid v = Inr (length (m_dense ?p),
      ?p\<lparr>m_sparsePages := sparse_store (m_sparsePages ?p) eid (length (m_dense ?p)),
         m_dense := m_dense ?p @ [v], m_denseToEntity := m_denseToEntity ?p @ [eid]\<rparr>)"
    using Set_absent [OF entry pool_room(2,1) [OF wf reg valid(2) entry]] .
  show ?thesis
    using absent mask all set
    by (simp add: Add_registered [OF wf reg valid])
qed

lemma Add_result_wf:
  assumes wf: "ECS_wf e" and reg: "m_componentBitPosition e T = Some info"
    and valid: "eid < m_maxEntityID e"
    and set: "Set (m_componentPools e ! m_bitPosition info) eid v = Inr (i, p')"
  shows "ECS_wf (e\<lparr>m_componentPools := (m_componentPools e)[m_bitPosition info := p']\<rparr>)"
proof (rule pool_update_wf [OF wf])
  let ?p = "m_componentPools e ! m_bitPosition info"
  have pwf: "SparseSet_wf ?p" using ECS_wf_pool(4) [OF wf reg] .
  show "SparseSet_wf p'" using pwf set by (rule Set_wf)
  show "\<forall>x \<in> set (m_denseToEntity p'). x < m_maxEntityID e"
  proof (cases "sparse_entry (m_sparsePages ?p) eid = tombstone")
    case True
    then have "m_denseToEntity p' = m_denseToEntity ?p @ [eid]"
      using set Set_absent_full [OF True, of v] Set_absent [OF True, of v]
      by (cases "length (m_dense ?p) < vector_max_size \<and>
                 length (m_denseToEntity ?p) < vector_max_size") auto
    then show ?thesis using ECS_wf_pool(5) [OF wf reg] valid by simp
  next
    case False
    then have "m_denseToEntity p' = m_denseToEntity ?p"
      using set Set_present [OF pwf False, of v] by auto
    then show ?thesis using ECS_wf_pool(5) [OF wf reg] by simp
  qed
qed

text \<open>
  Claim C3. Let \<open>T\<close> be registered with required mask \<open>R\<close> in a well-formed engine, and
  let the entity id be valid (not the sentinel, below the high-water mark). \<open>Add\<close> aborts
  when the entity already holds \<open>T\<close>; it aborts when the mask of the declared required types
  is not \<open>R\<close> (also when a declared type is unregistered, and then there is no such mask);
  it aborts when the entity does not hold every type of \<open>R\<close>. When none of the three is the
  case, it stores the value in the pool of \<open>T\<close> and returns the dense slot of the stored
  value: the slot holds \<open>v\<close>, and \<open>Has\<close> and \<open>Get\<close> of the new engine find it.
\<close>

theorem Add_contract:
  assumes wf: "ECS_wf e" and reg: "m_componentBitPosition e T = Some info"
    and valid: "eid \<noteq> NULL_ENTITY" "eid < m_maxEntityID e"
  shows "(Has e T eid = Inr True \<longrightarrow> Add e T declared eid v = Inl (Abort AlreadyHasComponent)) \<and>
         (GetMask e declared \<noteq> Inr (m_requiredComponents info) \<longrightarrow>
            (\<exists>f. Add e T declared eid v = Inl (Abort f))) \<and>
         (\<not> holds_every e eid (m_requiredComponents info) \<longrightarrow>
            (\<exists>f. Add e T declared eid v = Inl (Abort f))) \<and>
         (Has e T eid = Inr False \<and> GetMask e declared = Inr (m_requiredComponents info) \<and>
          holds_every e eid (m_requiredComponents info) \<longrightarrow>
            (\<exists>index e'. Add e T declared eid v = Inr (index, e') \<and>
               m_dense (m_componentPools e' ! m_bitPosition info) ! index = v \<and>
               Get (m_componentPools e' ! m_bitPosition info) eid = Inr (Some v) \<and>
               Has e' T eid = Inr True \<and> ECS_Get e' T eid = Inr v))"
proof (intro conjI impI)
  assume "Has e T eid = Inr True"
  then show "Add e T declared eid v = Inl (Abort AlreadyHasComponent)"
    by (simp add: Add_registered [OF wf reg valid])
next
  assume ne: "GetMask e declared \<noteq> Inr (m_requiredComponents info)"
  show "\<exists>f. Add e T declared eid v = Inl (Abort f)"
  proof (cases "GetMask e declared")
    case (Inl err)
    then show ?thesis
      using GetMask_Inl [OF wf Inl] by (auto simp add: Add_registered [OF wf reg valid])
  next
    case (Inr M)
    then show ?thesis
      using ne by (simp add: Add_registered [OF wf reg valid])
  qed
next
  assume nh: "\<not> holds_every e eid (m_requiredComponents info)"
  show "\<exists>f. Add e T declared eid v = Inl (Abort f)"
  proof (cases "GetMask e declared")
    case (Inl err)
    then show ?thesis
      using GetMask_Inl [OF wf Inl] by (auto simp add: Add_registered [OF wf reg valid])
  next
    case (Inr M)
    show ?thesis
    proof (cases "M = m_requiredComponents info")
      case False
      then show ?thesis using Inr by (simp add: Add_registered [OF wf reg valid])
    next
      case True
      then have "\<exists>C \<in> set declared. Has e C eid \<noteq> Inr True"
        using nh holds_every_mask [OF wf Inr] by auto
      then obtain f where "HasAllRequired e declared eid = Inl (Abort f)"
        using HasAllRequired_missing [OF wf] by blast
      then show ?thesis using Inr True by (simp add: Add_registered [OF wf reg valid])
    qed
  qed
next
  assume ok: "Has e T eid = Inr False \<and> GetMask e declared = Inr (m_requiredComponents info) \<and>
          holds_every e eid (m_requiredComponents info)"
  let ?p = "m_componentPools e ! m_bitPosition info"
  let ?b = "m_bitPosition info"
  obtain p' where p': "Set ?p eid v = Inr (length (m_dense ?p), p')"
      "Add e T declared eid v =
         Inr (length (m_dense ?p), e\<lparr>m_componentPools := (m_componentPools e)[?b := p']\<rparr>)"
    using Add_stores [OF wf reg valid, of declared v] ok by blast
  let ?e' = "e\<lparr>m_componentPools := (m_componentPools e)[?b := p']\<rparr>"
  have entry: "sparse_entry (m_sparsePages ?p) eid = tombstone"
    using ok by (simp add: Has_registered [OF wf reg])
  have p'_eq: "p' = ?p\<lparr>m_sparsePages := sparse_store (m_sparsePages ?p) eid (length (m_dense ?p)),
         m_dense := m_dense ?p @ [v], m_denseToEntity := m_denseToEntity ?p @ [eid]\<rparr>"
    using p'(1) Set_absent [OF entry pool_room(2,1) [OF wf reg valid(2) entry], of v] by simp
  have wf': "ECS_wf ?e'" using Add_result_wf [OF wf reg valid(2) p'(1)] .
  have reg': "m_componentBitPosition ?e' T = Some info" using reg by simp
  have pool': "m_componentPools ?e' ! ?b = p'"
    using ECS_wf_pool(1) [OF wf reg] by simp
  have nt: "length (m_dense ?p) \<noteq> tombstone"
    using pool_room(2) [OF wf reg valid(2) entry] vector_max_size_less_tombstone by simp
  have get: "Get p' eid = Inr (Some v)"
    using nt by (simp add: p'_eq Get_def GetDenseIndex_entry sparse_entry_store vec_at_def)
  have "m_dense p' ! length (m_dense ?p) = v" by (simp add: p'_eq)
  moreover have "Has ?e' T eid = Inr True"
    using get pool' by (simp add: Has_Get [OF wf' reg'])
  moreover have "ECS_Get ?e' T eid = Inr v"
    using valid get pool' by (simp add: ECS_Get_registered [OF wf' reg'])
  ultimately show "\<exists>index e'. Add e T declared eid v = Inr (index, e') \<and>
               m_dense (m_componentPools e' ! m_bitPosition info) ! index = v \<and>
               Get (m_componentPools e' ! m_bitPosition info) eid = Inr (Some v) \<and>
               Has e' T eid = Inr True \<and> ECS_Get e' T eid = Inr v"
    using p'(2) get pool' by auto
qed

section \<open>The facade keeps the engine well formed\<close>

lemma ECS_new_wf: "ECS_wf ECS_new"
  by (simp add: ECS_wf_def ECS_new_def)

lemma ECS_wf_frame:
  assumes "ECS_wf e" and "m_componentPools e' = m_componentPools e"
    and "m_maxEntityID e' = m_maxEntityID e"
    and "\<forall>C. map_option m_bitPosition (m_componentBitPosition e' C) =
             map_option m_bitPosition (m_componentBitPosition e C)"
  shows "ECS_wf e'"
proof -
  have "\<And>T info. m_componentBitPosition e' T = Some info \<Longrightarrow>
      m_bitPosition info < length (m_componentPools e)"
  proof -
    fix T info assume a: "m_componentBitPosition e' T = Some info"
    then have "map_option m_bitPosition (m_componentBitPosition e T) = Some (m_bitPosition info)"
      using assms(4) by (metis option.simps(9))
    then obtain i where "m_componentBitPosition e T = Some i" "m_bitPosition i = m_bitPosition info"
      by auto
    then show "m_bitPosition info < length (m_componentPools e)"
      using ECS_wf_pool(1) [OF assms(1)] by metis
  qed
  then show ?thesis
    using assms(1,2,3) by (simp add: ECS_wf_def)
qed

lemma SetRequirements_frame:
  assumes "SetRequirements e D R = Inr e'"
  shows "m_componentPools e' = m_componentPools e \<and> m_maxEntityID e' = m_maxEntityID e \<and>
         m_availableEntities e' = m_availableEntities e \<and> m_entityNames e' = m_entityNames e \<and>
         (\<forall>C. map_option m_bitPosition (m_componentBitPosition e' C) =
             map_option m_bitPosition (m_componentBitPosition e C)) \<and>
         (\<forall>C. map_option m_requiredComponents (m_componentBitPosition e' C) =
             map_option m_requiredComponents (m_componentBitPosition e C))"
  using assms
  by (auto simp add: SetRequirements_def andThen_eq_Inr_iff split: option.splits)

lemma BroadcastRequirements_frame:
  assumes "BroadcastRequirements e D Rs = Inr e'"
  shows "m_componentPools e' = m_componentPools e \<and> m_maxEntityID e' = m_maxEntityID e \<and>
         m_availableEntities e' = m_availableEntities e \<and> m_entityNames e' = m_entityNames e \<and>
         (\<forall>C. map_option m_bitPosition (m_componentBitPosition e' C) =
             map_option m_bitPosition (m_componentBitPosition e C)) \<and>
         (\<forall>C. map_option m_requiredComponents (m_componentBitPosition e' C) =
             map_option m_requiredComponents (m_componentBitPosition e C))"
  using assms
proof (induction Rs arbitrary: e)
  case Nil
  then show ?case by simp
next
  case (Cons R Rs)
  then obtain e1 where e1: "SetRequirements e D R = Inr e1" "BroadcastRequirements e1 D Rs = Inr e'"
    by (auto simp add: andThen_eq_Inr_iff)
  show ?case
    using SetRequirements_frame [OF e1(1)] Cons.IH [OF e1(2)] by simp
qed

lemma RegisterComponent_wf:
  assumes wf: "ECS_wf e" and reg: "RegisterComponent e T Cs = Inr e'"
  shows "ECS_wf e'"
proof -
  from reg obtain M where room: "length (m_componentPools e) < MAX_COMPONENTS"
    and b: "BroadcastRequirements
       (e\<lparr>m_componentBitPosition := (m_componentBitPosition e)
             (T \<mapsto> \<lparr>m_bitPosition = length (m_componentPools e),
                     m_requiredComponents = M,
                     m_isRequiredInComponents = 0\<rparr>),
          m_componentPools := m_componentPools e @ [SparseSet_new]\<rparr>) T Cs = Inr e'"
    by (auto simp add: RegisterComponent_def andThen_eq_Inr_iff BSEECS_ASSERT_def
        vec_push_back_def split: if_splits)
  have "ECS_wf (e\<lparr>m_componentBitPosition := (m_componentBitPosition e)
             (T \<mapsto> \<lparr>m_bitPosition = length (m_componentPools e),
                     m_requiredComponents = M,
                     m_isRequiredInComponents = 0\<rparr>),
          m_componentPools := m_componentPools e @ [SparseSet_new]\<rparr>)"
    using wf room SparseSet_new_wf
    by (auto simp add: ECS_wf_def SparseSet_new_def less_Suc_eq)
  then show ?thesis
    using BroadcastRequirements_frame [OF b] by (auto intro: ECS_wf_frame)
qed

lemma entity_less_Suc:
  assumes "unat (m :: EntityID) < MAX_ENTITIES"
  shows "unat (m + 1) = Suc (unat m)" and "x < m \<Longrightarrow> x < m + 1"
proof -
  show s: "unat (m + 1) = Suc (unat m)"
    using assms by (simp add: unat_word_ariths MAX_ENTITIES_def)
  assume "x < m"
  then show "x < m + 1"
    using s by (simp add: word_less_nat_alt)
qed

lemma CreateEntity_wf:
  assumes wf: "ECS_wf e" and cr: "CreateEntity e name = Inr (eid, e')"
  shows "ECS_wf e'"
proof (cases "m_availableEntities e = []")
  case True
  with cr have lt: "unat (m_maxEntityID e) < MAX_ENTITIES"
    by (auto simp add: CreateEntity_def BSEECS_ASSERT_def split: if_splits)
  with cr True have e': "m_componentPools e' = m_componentPools e"
      "m_componentBitPosition e' = m_componentBitPosition e"
      "m_maxEntityID e' = m_maxEntityID e + 1"
    by (auto simp add: CreateEntity_def BSEECS_ASSERT_def split: if_splits)
  show ?thesis
    using wf entity_less_Suc [OF lt] lt by (auto simp add: ECS_wf_def e')
next
  case False
  with cr have e': "m_componentPools e' = m_componentPools e"
      "m_componentBitPosition e' = m_componentBitPosition e"
      "m_maxEntityID e' = m_maxEntityID e"
    by (auto simp add: CreateEntity_def BSEECS_ASSERT_def vec_back_def vec_pop_back_def
        split: if_splits)
  show ?thesis
    using wf by (simp add: ECS_wf_def e')
qed

lemma DeleteEntity_frame:
  assumes "DeleteEntity e eid = Inr (h, e')"
  shows "m_componentPools e' = m_componentPools e \<and>
         m_componentBitPosition e' = m_componentBitPosition e \<and>
         m_maxEntityID e' = m_maxEntityID e"
  using assms
  by (auto simp add: DeleteEntity_def andThen_eq_Inr_iff)

lemma DeleteEntity_wf:
  assumes wf: "ECS_wf e" and del: "DeleteEntity e eid = Inr (h, e')"
  shows "ECS_wf e'"
  using wf DeleteEntity_frame [OF del] by (simp add: ECS_wf_def)

section \<open>\<open>Remove\<close>\<close>

lemma Delete_Get:
  assumes wf: "SparseSet_wf s" and del: "Delete s eid = Inr s'"
  shows "Get s' eid = Inr None" and "x \<noteq> eid \<Longrightarrow> Get s' x = Get s x"
proof -
  define pages where "pages = m_sparsePages s"
  define d2e where "d2e = m_denseToEntity s"
  define dense where "dense = m_dense s"
  define k where "k = sparse_entry pages eid"
  define lastE where "lastE = last d2e"
  have present: "k \<noteq> tombstone"
    using del Delete_absent [of s eid] by (auto simp add: k_def pages_def)
  have len: "length dense = length d2e"
    and fwd: "\<And>j. j < length d2e \<Longrightarrow> sparse_entry pages (d2e ! j) = j"
    and bwd: "\<And>y. sparse_entry pages y \<noteq> tombstone \<Longrightarrow>
        sparse_entry pages y < length d2e \<and> d2e ! sparse_entry pages y = y"
    using wf by (simp_all add: SparseSet_wf_entry pages_def d2e_def dense_def)
  have k: "k < length d2e" "d2e ! k = eid"
    using bwd [of eid] present by (simp_all add: k_def)
  then have ne: "d2e \<noteq> []" "dense \<noteq> []" using len by auto
  have lastE: "lastE = d2e ! (length d2e - 1)"
    using ne by (simp add: lastE_def last_conv_nth)
  have last_entry: "sparse_entry pages lastE = length d2e - 1"
    using fwd [of "length d2e - 1"] ne by (simp add: lastE)
  have s': "s' = s\<lparr>m_sparsePages := sparse_store (sparse_store pages lastE k) eid tombstone,
            m_dense := butlast (dense[k := last dense]),
            m_denseToEntity := butlast (d2e[k := lastE])\<rparr>"
    using Delete_present [OF wf, of eid] present del
    by (simp add: k_def pages_def d2e_def lastE_def dense_def)
  have entry': "\<And>y. sparse_entry (m_sparsePages s') y =
      (if y = eid then tombstone else if y = lastE then k else sparse_entry pages y)"
    by (simp add: s' sparse_entry_store)
  have dense': "m_dense s' = butlast (dense[k := last dense])"
    by (simp add: s')
  have wf': "SparseSet_wf s'" using wf del by (rule Delete_wf)
  show "Get s' eid = Inr None"
    by (simp add: Get_unallocated entry')
  assume x: "x \<noteq> eid"
  have old: "Get s x = Inr (if sparse_entry pages x \<noteq> tombstone
                    then Some (dense ! sparse_entry pages x) else None)"
    using Get_entry [OF wf, of x] by (simp add: pages_def dense_def)
  have new: "Get s' x = Inr (if sparse_entry (m_sparsePages s') x \<noteq> tombstone
                    then Some (m_dense s' ! sparse_entry (m_sparsePages s') x) else None)"
    using Get_entry [OF wf', of x] .
  show "Get s' x = Get s x"
  proof (cases "x = lastE")
    case True
    then have "k \<noteq> length d2e - 1"
      using x k(2) lastE by auto
    then have klt: "k < length dense - 1" using k(1) len by simp
    have "sparse_entry pages x \<noteq> tombstone"
      using True last_entry wf_slot_not_tombstone [OF wf, of "length d2e - 1"] ne
      by (simp add: d2e_def)
    moreover have "butlast (dense[k := last dense]) ! k = dense ! (length d2e - 1)"
      using klt ne len by (simp add: nth_butlast last_conv_nth)
    ultimately show ?thesis
      unfolding old new using True x present last_entry by (simp add: entry' dense')
  next
    case False
    show ?thesis
    proof (cases "sparse_entry pages x = tombstone")
      case True
      then show ?thesis unfolding old new using False x by (simp add: entry')
    next
      case nt: False
      then have b: "sparse_entry pages x < length d2e" "d2e ! sparse_entry pages x = x"
        using bwd [of x] by simp_all
      have "sparse_entry pages x \<noteq> length d2e - 1"
        using b False lastE by auto
      then have lt: "sparse_entry pages x < length dense - 1" using b len by simp
      have "sparse_entry pages x \<noteq> k" using b k x by auto
      then have "butlast (dense[k := last dense]) ! sparse_entry pages x =
                 dense ! sparse_entry pages x"
        using lt by (simp add: nth_butlast)
      then show ?thesis unfolding old new using False x nt by (simp add: entry' dense')
    qed
  qed
qed

lemma Delete_entities_subset:
  assumes wf: "SparseSet_wf s" and del: "Delete s eid = Inr s'"
  shows "set (m_denseToEntity s') \<subseteq> set (m_denseToEntity s)"
proof -
  have present: "sparse_entry (m_sparsePages s) eid \<noteq> tombstone"
    using del Delete_absent [of s eid] by auto
  then have ne: "m_denseToEntity s \<noteq> []"
    using wf by (auto simp add: SparseSet_wf_entry)
  have "m_denseToEntity s' = butlast ((m_denseToEntity s)
                 [sparse_entry (m_sparsePages s) eid := last (m_denseToEntity s)])"
    using Delete_present [OF wf present] del by auto
  moreover have "set (butlast ((m_denseToEntity s)
                 [sparse_entry (m_sparsePages s) eid := last (m_denseToEntity s)]))
     \<subseteq> insert (last (m_denseToEntity s)) (set (m_denseToEntity s))"
    using set_update_subset_insert in_set_butlastD by fastforce
  ultimately show ?thesis using ne by auto
qed

lemma Remove_registered:
  assumes wf: "ECS_wf e" and reg: "m_componentBitPosition e T = Some info"
    and valid: "eid \<noteq> NULL_ENTITY" "eid < m_maxEntityID e"
  shows "Remove e T Ss eid =
    (if Has e T eid = Inr False then Inl (Abort NoComponentToRemove)
     else andThen (GetMask e Ss) (\<lambda>M.
          if M \<noteq> m_isRequiredInComponents info then Inl (Abort SustainedMismatch)
          else andThen (HasRemovedAll e Ss eid) (\<lambda>ok.
               andThen (BSEECS_ASSERT ok DeleteSustainedFirst) (\<lambda>_.
               andThen (Delete (m_componentPools e ! m_bitPosition info) eid) (\<lambda>pool'.
               Inr (e\<lparr>m_componentPools :=
                      (m_componentPools e)[m_bitPosition info := pool']\<rparr>))))))"
  using ECS_wf_pool(4) [OF wf reg] reg
  by (auto simp add: Remove_def valid_entity [OF valid] GetComponentPool_registered [OF wf reg]
      Has_registered [OF wf reg] Get_entry GetSustainedComponent_def mask_xor_zero Let_def
      intro!: arg_cong2 [where f = andThen] ext)

lemma Remove_result_wf:
  assumes wf: "ECS_wf e" and reg: "m_componentBitPosition e T = Some info"
    and del: "Delete (m_componentPools e ! m_bitPosition info) eid = Inr p'"
  shows "ECS_wf (e\<lparr>m_componentPools := (m_componentPools e)[m_bitPosition info := p']\<rparr>)"
proof (rule pool_update_wf [OF wf])
  have pwf: "SparseSet_wf (m_componentPools e ! m_bitPosition info)"
    using ECS_wf_pool(4) [OF wf reg] .
  show "SparseSet_wf p'" using pwf del by (rule Delete_wf)
  show "\<forall>x \<in> set (m_denseToEntity p'). x < m_maxEntityID e"
    using Delete_entities_subset [OF pwf del] ECS_wf_pool(5) [OF wf reg] by auto
qed

text \<open>
  Claim C4. Let \<open>T\<close> be registered with sustained mask \<open>S\<close> in a well-formed engine, and
  let the entity id be valid. \<open>Remove\<close> aborts when the entity does not hold \<open>T\<close>; it aborts
  when the mask of the declared sustained types is not \<open>S\<close>; it aborts while the entity
  holds a type of \<open>S\<close>. When the entity holds \<open>T\<close> and none of the types of \<open>S\<close>, and the
  declared mask is \<open>S\<close>, it deletes the entity from the pool of \<open>T\<close>.
\<close>

theorem Remove_contract:
  assumes wf: "ECS_wf e" and reg: "m_componentBitPosition e T = Some info"
    and valid: "eid \<noteq> NULL_ENTITY" "eid < m_maxEntityID e"
  shows "(Has e T eid = Inr False \<longrightarrow> Remove e T declared eid = Inl (Abort NoComponentToRemove)) \<and>
         (GetMask e declared \<noteq> Inr (m_isRequiredInComponents info) \<longrightarrow>
            (\<exists>f. Remove e T declared eid = Inl (Abort f))) \<and>
         (\<not> holds_none e eid (m_isRequiredInComponents info) \<longrightarrow>
            (\<exists>f. Remove e T declared eid = Inl (Abort f))) \<and>
         (Has e T eid = Inr True \<and> GetMask e declared = Inr (m_isRequiredInComponents info) \<and>
          holds_none e eid (m_isRequiredInComponents info) \<longrightarrow>
            (\<exists>e' pool'. Remove e T declared eid = Inr e' \<and>
               Delete (m_componentPools e ! m_bitPosition info) eid = Inr pool' \<and>
               e' = e\<lparr>m_componentPools := (m_componentPools e)[m_bitPosition info := pool']\<rparr> \<and>
               Has e' T eid = Inr False))"
proof (intro conjI impI)
  assume "Has e T eid = Inr False"
  then show "Remove e T declared eid = Inl (Abort NoComponentToRemove)"
    by (simp add: Remove_registered [OF wf reg valid])
next
  assume ne: "GetMask e declared \<noteq> Inr (m_isRequiredInComponents info)"
  show "\<exists>f. Remove e T declared eid = Inl (Abort f)"
  proof (cases "GetMask e declared")
    case (Inl err)
    then show ?thesis
      using GetMask_Inl [OF wf Inl] by (auto simp add: Remove_registered [OF wf reg valid])
  next
    case (Inr M)
    then show ?thesis
      using ne by (simp add: Remove_registered [OF wf reg valid])
  qed
next
  assume nh: "\<not> holds_none e eid (m_isRequiredInComponents info)"
  show "\<exists>f. Remove e T declared eid = Inl (Abort f)"
  proof (cases "GetMask e declared")
    case (Inl err)
    then show ?thesis
      using GetMask_Inl [OF wf Inl] by (auto simp add: Remove_registered [OF wf reg valid])
  next
    case (Inr M)
    show ?thesis
    proof (cases "M = m_isRequiredInComponents info")
      case False
      then show ?thesis using Inr by (simp add: Remove_registered [OF wf reg valid])
    next
      case True
      then have "\<exists>C \<in> set declared. Has e C eid \<noteq> Inr False"
        using nh holds_none_mask [OF wf Inr] by auto
      then obtain f where "HasRemovedAll e declared eid = Inl (Abort f)"
        using HasRemovedAll_present [OF wf] by blast
      then show ?thesis using Inr True by (simp add: Remove_registered [OF wf reg valid])
    qed
  qed
next
  assume ok: "Has e T eid = Inr True \<and> GetMask e declared = Inr (m_isRequiredInComponents info) \<and>
          holds_none e eid (m_isRequiredInComponents info)"
  let ?p = "m_componentPools e ! m_bitPosition info"
  let ?b = "m_bitPosition info"
  have pwf: "SparseSet_wf ?p" using ECS_wf_pool(4) [OF wf reg] .
  have present: "sparse_entry (m_sparsePages ?p) eid \<noteq> tombstone"
    using ok by (simp add: Has_registered [OF wf reg])
  obtain p' where p': "Delete ?p eid = Inr p'"
    using Delete_present [OF pwf present] by simp
  let ?e' = "e\<lparr>m_componentPools := (m_componentPools e)[?b := p']\<rparr>"
  have none: "HasRemovedAll e declared eid = Inr True"
    using ok holds_none_mask [OF wf, of declared] by (simp add: HasRemovedAll_none)
  have rem: "Remove e T declared eid = Inr ?e'"
    using ok none p' by (simp add: Remove_registered [OF wf reg valid])
  have wf': "ECS_wf ?e'" using Remove_result_wf [OF wf reg p'] .
  have reg': "m_componentBitPosition ?e' T = Some info" using reg by simp
  have pool': "m_componentPools ?e' ! ?b = p'"
    using ECS_wf_pool(1) [OF wf reg] by simp
  have "Get p' eid = Inr None" using Delete_Get(1) [OF pwf p'] .
  then have "Has ?e' T eid = Inr False"
    using pool' by (simp add: Has_Get [OF wf' reg'])
  then show "\<exists>e' pool'. Remove e T declared eid = Inr e' \<and>
               Delete (m_componentPools e ! m_bitPosition info) eid = Inr pool' \<and>
               e' = e\<lparr>m_componentPools := (m_componentPools e)[m_bitPosition info := pool']\<rparr> \<and>
               Has e' T eid = Inr False"
    using rem p' by blast
qed

lemma Remove_Inr:
  assumes wf: "ECS_wf e" and rem: "Remove e T declared eid = Inr e'"
  shows "\<exists>info p'. m_componentBitPosition e T = Some info \<and>
           eid \<noteq> NULL_ENTITY \<and> eid < m_maxEntityID e \<and>
           Delete (m_componentPools e ! m_bitPosition info) eid = Inr p' \<and>
           e' = e\<lparr>m_componentPools := (m_componentPools e)[m_bitPosition info := p']\<rparr>"
proof -
  have valid: "eid \<noteq> NULL_ENTITY" "eid < m_maxEntityID e"
    using rem
    by (auto simp add: Remove_def BSEECS_ASSERT_VALID_ENTITY_def BSEECS_ASSERT_def
        split: if_splits)
  obtain info where reg: "m_componentBitPosition e T = Some info"
  proof (cases "m_componentBitPosition e T")
    case None
    then have "Remove e T declared eid = Inl (Abort (UnregisteredComponent T))"
      by (simp add: Remove_def valid_entity [OF valid] GetComponentPool_unregistered)
    with rem show ?thesis by simp
  next
    case (Some info)
    then show ?thesis using that by simp
  qed
  show ?thesis
    using rem reg valid
    by (auto simp add: Remove_registered [OF wf reg valid] andThen_eq_Inr_iff split: if_splits)
qed

lemma Remove_wf:
  assumes wf: "ECS_wf e" and rem: "Remove e T declared eid = Inr e'"
  shows "ECS_wf e'"
  using Remove_Inr [OF wf rem] Remove_result_wf [OF wf] by auto

text \<open>
  Claim C5. When \<open>Remove<T>\<close> on an entity returns, the entity no longer has \<open>T\<close>, and
  \<open>Get<T>\<close> of any other entity returns the value it returned before.
\<close>

theorem Remove_keeps_other_entities:
  assumes wf: "ECS_wf e" and rem: "Remove e T declared eid = Inr e'"
    and other: "eid2 \<noteq> eid" and get: "ECS_Get e T eid2 = Inr v"
  shows "Has e' T eid = Inr False \<and> ECS_Get e' T eid2 = Inr v"
proof -
  obtain info p' where reg: "m_componentBitPosition e T = Some info"
    and valid: "eid \<noteq> NULL_ENTITY" "eid < m_maxEntityID e"
    and del: "Delete (m_componentPools e ! m_bitPosition info) eid = Inr p'"
    and e': "e' = e\<lparr>m_componentPools := (m_componentPools e)[m_bitPosition info := p']\<rparr>"
    using Remove_Inr [OF wf rem] by blast
  let ?p = "m_componentPools e ! m_bitPosition info"
  have pwf: "SparseSet_wf ?p" using ECS_wf_pool(4) [OF wf reg] .
  have wf': "ECS_wf e'" using wf rem by (rule Remove_wf)
  have reg': "m_componentBitPosition e' T = Some info" using reg by (simp add: e')
  have pool': "m_componentPools e' ! m_bitPosition info = p'"
    using ECS_wf_pool(1) [OF wf reg] by (simp add: e')
  have valid2: "eid2 \<noteq> NULL_ENTITY" "eid2 < m_maxEntityID e"
    using get
    by (auto simp add: ECS_Get_def BSEECS_ASSERT_VALID_ENTITY_def BSEECS_ASSERT_def
        split: if_splits)
  then have valid2': "eid2 \<noteq> NULL_ENTITY" "eid2 < m_maxEntityID e'"
    by (simp_all add: e')
  have "Get p' eid = Inr None" using Delete_Get(1) [OF pwf del] .
  then have has: "Has e' T eid = Inr False"
    using pool' by (simp add: Has_Get [OF wf' reg'])
  have "Get ?p eid2 = Inr (Some v)"
    using get by (auto simp add: ECS_Get_registered [OF wf reg valid2] split: sum.splits option.splits)
  then have "Get p' eid2 = Inr (Some v)"
    using Delete_Get(2) [OF pwf del other] by simp
  then have "ECS_Get e' T eid2 = Inr v"
    using pool' by (simp add: ECS_Get_registered [OF wf' reg' valid2'])
  with has show ?thesis by simp
qed

text \<open>
  Claim C6, as amended. In a well-formed engine \<open>Has<T>\<close> returns a boolean for every
  entity id when \<open>T\<close> is registered, and \<open>HasAll\<close> returns a boolean when all its types
  are registered; no entity id makes them abort. On an unregistered type \<open>Has\<close> aborts
  with the message of \<open>GetComponentPool\<close>.
\<close>

theorem Has_total_on_registered:
  assumes wf: "ECS_wf e"
  shows "(m_componentBitPosition e T \<noteq> None \<longrightarrow> (\<exists>b. Has e T eid = Inr b)) \<and>
         (m_componentBitPosition e T = None \<longrightarrow>
            Has e T eid = Inl (Abort (UnregisteredComponent T))) \<and>
         ((\<forall>C \<in> set Ts. m_componentBitPosition e C \<noteq> None) \<longrightarrow>
            (\<exists>b. HasAll e Ts eid = Inr b))"
proof (intro conjI impI)
  assume "m_componentBitPosition e T \<noteq> None"
  then show "\<exists>b. Has e T eid = Inr b"
    using Has_registered [OF wf] by auto
next
  assume "m_componentBitPosition e T = None"
  then show "Has e T eid = Inl (Abort (UnregisteredComponent T))"
    by (rule Has_unregistered)
next
  assume "\<forall>C \<in> set Ts. m_componentBitPosition e C \<noteq> None"
  then show "\<exists>b. HasAll e Ts eid = Inr b"
  proof (induction Ts)
    case Nil
    have "HasAll e [] eid = Inr True" by simp
    then show ?case by (rule exI)
  next
    case (Cons C Ts)
    then obtain info where "m_componentBitPosition e C = Some info" by auto
    then obtain b where b: "Has e C eid = Inr b"
      using Has_registered [OF wf] by blast
    from Cons obtain b' where b': "HasAll e Ts eid = Inr b'" by auto
    have "HasAll e (C # Ts) eid = Inr (b \<and> b')"
      using b b' by simp
    then show ?case by (rule exI)
  qed
qed

text \<open>
  Claim C6 as stated fails: \<open>Has\<close> on a component type that was never registered aborts.
\<close>

theorem Has_unregistered_counterexample:
  "Has (ECS_new :: nat ECS) ''Position'' 0 = Inl (Abort (UnregisteredComponent ''Position''))"
  by (simp add: Has_def GetComponentPool_def GetComponentBitPosition_def ECS_new_def)

text \<open>
  Claim C10. \<open>GetDenseIndex\<close> returns for every sparse set and every entity id, without
  an access outside a vector. For an id whose page or whose slot in the page was never
  allocated it returns the tombstone, \<open>Get\<close> returns null, and \<open>Has\<close> of a registered type
  returns false.
\<close>

theorem sparse_lookup_total:
  "(\<exists>n. GetDenseIndex s eid = Inr n) \<and>
   (length (m_sparsePages s) \<le> unat eid div SPARSE_MAX_SIZE \<or>
    length (m_sparsePages s ! (unat eid div SPARSE_MAX_SIZE)) \<le> unat eid mod SPARSE_MAX_SIZE \<longrightarrow>
      GetDenseIndex s eid = Inr tombstone \<and> Get s eid = Inr None) \<and>
   (ECS_wf e \<and> m_componentBitPosition e T = Some info \<and>
    (length (m_sparsePages (m_componentPools e ! m_bitPosition info))
       \<le> unat eid div SPARSE_MAX_SIZE \<or>
     length (m_sparsePages (m_componentPools e ! m_bitPosition info) !
        (unat eid div SPARSE_MAX_SIZE)) \<le> unat eid mod SPARSE_MAX_SIZE) \<longrightarrow>
      Has e T eid = Inr False)"
proof (intro conjI impI)
  show "\<exists>n. GetDenseIndex s eid = Inr n"
    by (simp add: GetDenseIndex_entry)
next
  assume a: "length (m_sparsePages s) \<le> unat eid div SPARSE_MAX_SIZE \<or>
    length (m_sparsePages s ! (unat eid div SPARSE_MAX_SIZE)) \<le> unat eid mod SPARSE_MAX_SIZE"
  then have "sparse_entry (m_sparsePages s) eid = tombstone"
    by (auto simp add: sparse_entry_def)
  then show "GetDenseIndex s eid = Inr tombstone" and "Get s eid = Inr None"
    by (simp_all add: GetDenseIndex_entry Get_unallocated)
next
  assume a: "ECS_wf e \<and> m_componentBitPosition e T = Some info \<and>
    (length (m_sparsePages (m_componentPools e ! m_bitPosition info))
       \<le> unat eid div SPARSE_MAX_SIZE \<or>
     length (m_sparsePages (m_componentPools e ! m_bitPosition info) !
        (unat eid div SPARSE_MAX_SIZE)) \<le> unat eid mod SPARSE_MAX_SIZE)"
  then have "sparse_entry (m_sparsePages (m_componentPools e ! m_bitPosition info)) eid = tombstone"
    by (auto simp add: sparse_entry_def)
  then show "Has e T eid = Inr False"
    using a by (simp add: Has_registered)
qed

section \<open>The entity allocator\<close>

lemma unat_tombstone: "unat (eid :: EntityID) = tombstone \<longleftrightarrow> eid = NULL_ENTITY"
proof -
  have "unat (NULL_ENTITY :: EntityID) = tombstone"
    by (simp add: NULL_ENTITY_def tombstone_def unsigned_minus_1_eq_mask mask_eq_exp_minus_1)
  then show ?thesis
    by (metis word_unat_eq_iff)
qed

lemma CreateEntity_pop:
  assumes "m_availableEntities e \<noteq> []" and "last (m_availableEntities e) \<noteq> NULL_ENTITY"
  shows "CreateEntity e name =
    Inr (last (m_availableEntities e),
      if name \<noteq> []
      then e\<lparr>m_availableEntities := butlast (m_availableEntities e),
             m_entityNames := (m_entityNames e)(last (m_availableEntities e) \<mapsto> name)\<rparr>
      else e\<lparr>m_availableEntities := butlast (m_availableEntities e)\<rparr>)"
  using assms by (simp add: CreateEntity_def vec_back_def vec_pop_back_def unat_tombstone)

lemma CreateEntity_fresh:
  assumes "m_availableEntities e = []" and "unat (m_maxEntityID e) < MAX_ENTITIES"
  shows "CreateEntity e name =
    Inr (m_maxEntityID e,
      if name \<noteq> []
      then e\<lparr>m_maxEntityID := m_maxEntityID e + 1,
             m_entityNames := (m_entityNames e)(m_maxEntityID e \<mapsto> name)\<rparr>
      else e\<lparr>m_maxEntityID := m_maxEntityID e + 1\<rparr>)"
proof -
  have "unat (m_maxEntityID e) \<noteq> tombstone"
    using assms(2) by (simp add: MAX_ENTITIES_def tombstone_def)
  then show ?thesis
    using assms by (simp add: CreateEntity_def)
qed

lemma CreateEntity_limit:
  assumes "m_availableEntities e = []" and "MAX_ENTITIES \<le> unat (m_maxEntityID e)"
  shows "CreateEntity e name = Inl (Abort EntityLimitExceeded)"
  using assms by (simp add: CreateEntity_def)

lemma CreateEntities_fresh:
  assumes "m_availableEntities e = []"
    and "unat (m_maxEntityID e) + length names \<le> MAX_ENTITIES"
  shows "\<exists>e'. CreateEntities e names =
            Inr (map (\<lambda>i. m_maxEntityID e + of_nat i) [0..<length names], e') \<and>
          m_availableEntities e' = [] \<and>
          m_maxEntityID e' = m_maxEntityID e + of_nat (length names)"
  using assms
proof (induction names arbitrary: e)
  case Nil
  then show ?case by simp
next
  case (Cons name names)
  have lt: "unat (m_maxEntityID e) < MAX_ENTITIES" using Cons.prems(2) by simp
  obtain e1 where e1: "CreateEntity e name = Inr (m_maxEntityID e, e1)"
      "m_availableEntities e1 = []" "m_maxEntityID e1 = m_maxEntityID e + 1"
    using CreateEntity_fresh [OF Cons.prems(1) lt, of name] Cons.prems(1) by auto
  have "unat (m_maxEntityID e1) + length names \<le> MAX_ENTITIES"
    using Cons.prems(2) entity_less_Suc(1) [OF lt] by (simp add: e1(3))
  from Cons.IH [OF e1(2) this]
  obtain e' where e': "CreateEntities e1 names =
      Inr (map (\<lambda>i. m_maxEntityID e1 + of_nat i) [0..<length names], e')"
      "m_availableEntities e' = []"
      "m_maxEntityID e' = m_maxEntityID e1 + of_nat (length names)"
    by blast
  have "map (\<lambda>i. m_maxEntityID e + of_nat i) [0..<length (name # names)] =
        m_maxEntityID e # map (\<lambda>i. m_maxEntityID e1 + of_nat i) [0..<length names]"
    by (simp add: map_upt_Suc e1(3) add.assoc add.commute del: upt_Suc)
  then show ?case
    using e1 e' by (simp add: add.assoc add.commute)
qed

text \<open>
  Claim C8. When the free pool is not empty (it never holds the sentinel: \<open>DeleteEntity\<close>
  rejects it), \<open>CreateEntity\<close> returns its last id and removes it from the pool. When the
  pool is empty and the high-water mark has reached \<open>MAX_ENTITIES\<close>, it aborts; otherwise
  it returns the mark and increments it. Hence \<open>MAX_ENTITIES\<close> creations on a new engine
  return the ids \<open>0, \<dots>, MAX_ENTITIES - 1\<close> in this order, and one more creation aborts.
\<close>

theorem CreateEntity_contract:
  "(m_availableEntities e \<noteq> [] \<and> NULL_ENTITY \<notin> set (m_availableEntities e) \<longrightarrow>
      (\<exists>e'. CreateEntity e name = Inr (last (m_availableEntities e), e') \<and>
         m_availableEntities e' = butlast (m_availableEntities e) \<and>
         m_maxEntityID e' = m_maxEntityID e)) \<and>
   (m_availableEntities e = [] \<and> MAX_ENTITIES \<le> unat (m_maxEntityID e) \<longrightarrow>
      CreateEntity e name = Inl (Abort EntityLimitExceeded)) \<and>
   (m_availableEntities e = [] \<and> unat (m_maxEntityID e) < MAX_ENTITIES \<longrightarrow>
      (\<exists>e'. CreateEntity e name = Inr (m_maxEntityID e, e') \<and>
         m_availableEntities e' = [] \<and>
         m_maxEntityID e' = m_maxEntityID e + 1)) \<and>
   (length names = MAX_ENTITIES \<longrightarrow>
      (\<exists>e'. CreateEntities ECS_new names = Inr (map of_nat [0..<MAX_ENTITIES], e') \<and>
         CreateEntity e' name = Inl (Abort EntityLimitExceeded)))"
proof (intro conjI impI)
  assume "m_availableEntities e \<noteq> [] \<and> NULL_ENTITY \<notin> set (m_availableEntities e)"
  then have "m_availableEntities e \<noteq> []" "last (m_availableEntities e) \<noteq> NULL_ENTITY"
    using last_in_set by fastforce+
  then show "\<exists>e'. CreateEntity e name = Inr (last (m_availableEntities e), e') \<and>
         m_availableEntities e' = butlast (m_availableEntities e) \<and>
         m_maxEntityID e' = m_maxEntityID e"
    by (simp add: CreateEntity_pop)
next
  assume "m_availableEntities e = [] \<and> MAX_ENTITIES \<le> unat (m_maxEntityID e)"
  then show "CreateEntity e name = Inl (Abort EntityLimitExceeded)"
    by (simp add: CreateEntity_limit)
next
  assume "m_availableEntities e = [] \<and> unat (m_maxEntityID e) < MAX_ENTITIES"
  then show "\<exists>e'. CreateEntity e name = Inr (m_maxEntityID e, e') \<and>
         m_availableEntities e' = [] \<and> m_maxEntityID e' = m_maxEntityID e + 1"
    by (simp add: CreateEntity_fresh)
next
  assume len: "length names = MAX_ENTITIES"
  have "\<exists>e'. CreateEntities (ECS_new :: 'b ECS) names =
            Inr (map (\<lambda>i. m_maxEntityID (ECS_new :: 'b ECS) + of_nat i) [0..<length names], e') \<and>
          m_availableEntities e' = [] \<and>
          m_maxEntityID e' = m_maxEntityID (ECS_new :: 'b ECS) + of_nat (length names)"
    by (rule CreateEntities_fresh) (simp_all add: ECS_new_def len)
  then obtain e' :: "'b ECS" where e': "CreateEntities ECS_new names = Inr (map of_nat [0..<MAX_ENTITIES], e')"
    "m_availableEntities e' = []" "m_maxEntityID e' = of_nat MAX_ENTITIES"
    by (auto simp add: ECS_new_def len)
  have "unat (m_maxEntityID e') = MAX_ENTITIES"
    by (simp add: e'(3) MAX_ENTITIES_def)
  then have "CreateEntity e' name = Inl (Abort EntityLimitExceeded)"
    using e'(2) by (simp add: CreateEntity_limit)
  then show "\<exists>e'. CreateEntities (ECS_new :: 'b ECS) names = Inr (map of_nat [0..<MAX_ENTITIES], e') \<and>
         CreateEntity e' name = Inl (Abort EntityLimitExceeded)"
    using e'(1) by blast
qed

text \<open>
  Claim C9. For a valid entity id, and a free pool that can still grow, \<open>DeleteEntity\<close>
  removes the name of the entity, appends the id to the free pool and resets the handle
  of the caller to \<open>NULL_ENTITY\<close>. The component pools, the registry and the high-water
  mark stay as they are.
\<close>

theorem DeleteEntity_contract:
  assumes "eid \<noteq> NULL_ENTITY" and "eid < m_maxEntityID e"
    and "length (m_availableEntities e) < vector_max_size"
  shows "\<exists>e'. DeleteEntity e eid = Inr (NULL_ENTITY, e') \<and>
           m_entityNames e' = (m_entityNames e)(eid := None) \<and>
           m_availableEntities e' = m_availableEntities e @ [eid] \<and>
           m_componentPools e' = m_componentPools e \<and>
           m_componentBitPosition e' = m_componentBitPosition e \<and>
           m_maxEntityID e' = m_maxEntityID e"
  using assms
  by (simp add: DeleteEntity_def GetEntityName_def valid_entity vec_push_back_def
      split: option.splits)

lemma allocator_inv_new: "allocator_inv (ECS_new, [])"
  by (simp add: allocator_inv_def ECS_new_def)

lemma allocator_inv_create:
  assumes inv: "allocator_inv (e, live)" and cr: "CreateEntity e name = Inr (eid, e')"
  shows "allocator_inv (e', eid # live)"
proof (cases "m_availableEntities e = []")
  case True
  have lt: "unat (m_maxEntityID e) < MAX_ENTITIES"
    using cr True CreateEntity_limit [OF True, of name] by (cases "unat (m_maxEntityID e) < MAX_ENTITIES") auto
  have r: "eid = m_maxEntityID e" "m_availableEntities e' = []"
      "m_maxEntityID e' = m_maxEntityID e + 1"
    using cr CreateEntity_fresh [OF True lt, of name] True by (auto split: if_splits)
  have below: "\<forall>x \<in> set live. x < m_maxEntityID e"
    using inv by (simp add: allocator_inv_def)
  then have "m_maxEntityID e \<notin> set live" by auto
  moreover have "m_maxEntityID e < m_maxEntityID e + 1"
    using entity_less_Suc(1) [OF lt] by (simp add: word_less_nat_alt)
  moreover have "\<forall>x \<in> set live. x < m_maxEntityID e + 1"
    using below entity_less_Suc(2) [OF lt] by blast
  moreover have "unat (m_maxEntityID e + 1) \<le> MAX_ENTITIES"
    using entity_less_Suc(1) [OF lt] lt by simp
  ultimately show ?thesis
    using inv by (simp add: allocator_inv_def r)
next
  case False
  have nn: "last (m_availableEntities e) \<noteq> NULL_ENTITY"
  proof
    assume "last (m_availableEntities e) = NULL_ENTITY"
    then have "CreateEntity e name = Inl (Abort CreateNullID)"
      using False by (simp add: CreateEntity_def vec_back_def vec_pop_back_def unat_tombstone)
    with cr show False by simp
  qed
  have r: "eid = last (m_availableEntities e)"
      "m_availableEntities e' = butlast (m_availableEntities e)"
      "m_maxEntityID e' = m_maxEntityID e"
    using cr CreateEntity_pop [OF False nn, of name] by (auto split: if_splits)
  have split: "m_availableEntities e = butlast (m_availableEntities e) @ [eid]"
    using False by (simp add: r(1))
  have d: "distinct (butlast (m_availableEntities e) @ [eid])"
    and dis: "set live \<inter> set (butlast (m_availableEntities e) @ [eid]) = {}"
    and below: "\<forall>x \<in> set live \<union> set (butlast (m_availableEntities e) @ [eid]). x < m_maxEntityID e"
    using inv split by (simp_all add: allocator_inv_def)
  show ?thesis
    using inv d dis below by (auto simp add: allocator_inv_def r(2,3))
qed

lemma allocator_inv_delete:
  assumes inv: "allocator_inv (e, live)" and del: "DeleteEntity e eid = Inr (h, e')"
    and live: "eid \<in> set live"
  shows "allocator_inv (e', remove1 eid live)"
proof -
  have r: "m_availableEntities e' = m_availableEntities e @ [eid]"
      "m_maxEntityID e' = m_maxEntityID e"
    using del
    by (auto simp add: DeleteEntity_def andThen_eq_Inr_iff vec_push_back_def split: if_splits)
  have "eid \<notin> set (m_availableEntities e)"
    using inv live by (auto simp add: allocator_inv_def)
  moreover have "eid \<notin> set (remove1 eid live)"
    using inv by (simp add: allocator_inv_def)
  moreover have "set (remove1 eid live) \<subseteq> set live"
    by (rule set_remove1_subset)
  ultimately show ?thesis
    using inv live by (auto simp add: allocator_inv_def r)
qed

lemma allocator_inv_calls:
  assumes "allocator_inv st" and "do_entity_calls st calls = Inr st'" and "deletes_live st calls"
  shows "allocator_inv st'"
  using assms
proof (induction calls arbitrary: st)
  case Nil
  then show ?case by simp
next
  case (Cons c calls)
  obtain e live where st: "st = (e, live)" by (cases st)
  from Cons.prems(2) obtain st1 where st1: "do_entity_call st c = Inr st1"
      "do_entity_calls st1 calls = Inr st'"
    by (auto simp add: andThen_eq_Inr_iff)
  have rest: "deletes_live st1 calls"
    using Cons.prems(3) st1(1) by simp
  have "allocator_inv st1"
  proof (cases c)
    case (CallCreateEntity name)
    then show ?thesis
      using st1(1) Cons.prems(1) allocator_inv_create [of e live name]
      by (auto simp add: st andThen_eq_Inr_iff)
  next
    case (CallDeleteEntity eid)
    then have "eid \<in> set live" using Cons.prems(3) by (simp add: st)
    then show ?thesis
      using st1(1) Cons.prems(1) CallDeleteEntity allocator_inv_delete [of e live eid]
      by (auto simp add: st andThen_eq_Inr_iff)
  qed
  then show ?case using st1(2) rest by (rule Cons.IH)
qed

text \<open>
  Claim C2, as amended. In a run of \<open>CreateEntity\<close> and \<open>DeleteEntity\<close> calls on a new
  engine in which every \<open>DeleteEntity\<close> is given the id of a live entity, no two live
  entities have the same id, the free pool has no duplicates, and no id is both live and
  in the free pool.
\<close>

theorem live_entities_distinct:
  assumes "do_entity_calls (ECS_new, []) calls = Inr (e :: 'v ECS, live)"
    and "deletes_live (ECS_new :: 'v ECS, []) calls"
  shows "distinct live \<and> distinct (m_availableEntities e) \<and>
         set live \<inter> set (m_availableEntities e) = {}"
  using allocator_inv_calls [OF allocator_inv_new assms]
  by (simp add: allocator_inv_def)

lemmas ecs_eval =
  RegisterComponent_def GetMask_def SetComponentBit_def GetComponentBitPosition_def
  SetRequirements_def GetComponentPool_def CreateEntity_def DeleteEntity_def GetEntityName_def
  BSEECS_ASSERT_VALID_ENTITY_def Has_def HasRequired_def HasRemoved_def Add_def Remove_def
  ECS_Get_def GetRequiredComponent_def GetSustainedComponent_def
  NULL_ENTITY_def MAX_ENTITIES_def MAX_COMPONENTS_def

text \<open>
  Claim C2 as stated fails: \<open>DeleteEntity\<close> does not check that the entity is live. Called
  twice on id 0 it puts 0 into the free pool twice, and the next two \<open>CreateEntity\<close> calls
  both return 0.
\<close>

theorem double_delete_counterexample:
  "do_entity_calls (ECS_new :: nat ECS, [])
     [CallCreateEntity [], CallDeleteEntity 0, CallDeleteEntity 0,
      CallCreateEntity [], CallCreateEntity []] =
     Inr (\<lparr>m_availableEntities = [], m_entityNames = Map.empty, m_componentPools = [],
            m_componentBitPosition = Map.empty, m_maxEntityID = 1\<rparr>, [0, 0]) \<and>
   \<not> distinct [0, 0 :: EntityID]"
  by (simp add: ecs_eval sparse_eval ECS_new_def)

theorem live_entities_distinct_witness:
  "do_entity_calls (ECS_new :: nat ECS, [])
     [CallCreateEntity [], CallCreateEntity [], CallDeleteEntity 0, CallCreateEntity [],
      CallDeleteEntity 1, CallDeleteEntity 0, CallCreateEntity []] =
     Inr (\<lparr>m_availableEntities = [1], m_entityNames = Map.empty, m_componentPools = [],
            m_componentBitPosition = Map.empty, m_maxEntityID = 2\<rparr>, [0]) \<and>
   deletes_live (ECS_new :: nat ECS, [])
     [CallCreateEntity [], CallCreateEntity [], CallDeleteEntity 0, CallCreateEntity [],
      CallDeleteEntity 1, CallDeleteEntity 0, CallCreateEntity []] \<and>
   distinct [0 :: EntityID] \<and> distinct [1 :: EntityID] \<and> set [0 :: EntityID] \<inter> set [1] = {}"
proof -
  have run: "do_entity_calls (ECS_new :: nat ECS, [])
     [CallCreateEntity [], CallCreateEntity [], CallDeleteEntity 0, CallCreateEntity [],
      CallDeleteEntity 1, CallDeleteEntity 0, CallCreateEntity []] =
     Inr (\<lparr>m_availableEntities = [1], m_entityNames = Map.empty, m_componentPools = [],
            m_componentBitPosition = Map.empty, m_maxEntityID = 2\<rparr>, [0])"
    by (simp add: ecs_eval sparse_eval ECS_new_def)
  have live: "deletes_live (ECS_new :: nat ECS, [])
     [CallCreateEntity [], CallCreateEntity [], CallDeleteEntity 0, CallCreateEntity [],
      CallDeleteEntity 1, CallDeleteEntity 0, CallCreateEntity []]"
    by (simp add: ecs_eval sparse_eval ECS_new_def)
  show ?thesis
    using live_entities_distinct [OF run live] run live by simp
qed

section \<open>Runs of facade calls\<close>

lemma Add_Inr_valid:
  assumes "Add e T Rs eid v = Inr r"
  shows "eid \<noteq> NULL_ENTITY" and "eid < m_maxEntityID e"
  using assms
  by (auto simp add: Add_def BSEECS_ASSERT_VALID_ENTITY_def BSEECS_ASSERT_def split: if_splits)

lemma RegisterComponent_nil:
  assumes "RegisterComponent e T [] = Inr e1"
  shows "e1 = e\<lparr>m_componentBitPosition := (m_componentBitPosition e)
             (T \<mapsto> \<lparr>m_bitPosition = length (m_componentPools e),
                     m_requiredComponents = 0, m_isRequiredInComponents = 0\<rparr>),
          m_componentPools := m_componentPools e @ [SparseSet_new]\<rparr>"
  using assms
  by (auto simp add: RegisterComponent_def GetMask_def andThen_eq_Inr_iff vec_push_back_def
      split: if_splits)

lemma Add_wf:
  assumes wf: "ECS_wf e" and add: "Add e T Rs eid v = Inr (i, e')"
  shows "ECS_wf e'"
proof -
  have valid: "eid \<noteq> NULL_ENTITY" "eid < m_maxEntityID e"
    using Add_Inr_valid [OF add] .
  have registered: "\<And>e0 info. ECS_wf e0 \<Longrightarrow> m_componentBitPosition e0 T = Some info \<Longrightarrow>
      eid < m_maxEntityID e0 \<Longrightarrow> Add e0 T Rs eid v = Inr (i, e') \<Longrightarrow> ECS_wf e'"
  proof -
    fix e0 :: "'a ECS" and info
    assume wf0: "ECS_wf e0" and reg0: "m_componentBitPosition e0 T = Some info"
      and v0: "eid < m_maxEntityID e0" and add0: "Add e0 T Rs eid v = Inr (i, e')"
    from add0 obtain p' where "Set (m_componentPools e0 ! m_bitPosition info) eid v = Inr (i, p')"
        "e' = e0\<lparr>m_componentPools := (m_componentPools e0)[m_bitPosition info := p']\<rparr>"
      by (auto simp add: Add_registered [OF wf0 reg0 valid(1) v0] andThen_eq_Inr_iff
          split: if_splits)
    then show "ECS_wf e'"
      using Add_result_wf [OF wf0 reg0 v0] by simp
  qed
  show ?thesis
  proof (cases "m_componentBitPosition e T")
    case (Some info)
    then show ?thesis using registered [OF wf Some valid(2) add] by simp
  next
    case None
    have tomb: "GetComponentBitPosition e T = tombstone"
      using None by (simp add: GetComponentBitPosition_def)
    from add valid obtain e1 b where gp: "GetComponentPool e T True = Inr (e1, b)"
      by (cases "GetComponentPool e T True") (auto simp add: Add_def valid_entity)
    then obtain e1' where e1: "RegisterComponent e T [] = Inr e1'"
      using tomb by (cases "RegisterComponent e T []") (auto simp add: GetComponentPool_def)
    have e1_eq: "e1' = e1" and b: "b = GetComponentBitPosition e1 T"
      using gp tomb e1
      by (auto simp add: GetComponentPool_def andThen_eq_Inr_iff BSEECS_ASSERT_def
          split: if_splits)
    have wf1: "ECS_wf e1" using RegisterComponent_wf [OF wf e1] e1_eq by simp
    obtain info where reg1: "m_componentBitPosition e1 T = Some info"
      using RegisterComponent_nil [OF e1] e1_eq by auto
    have max1: "m_maxEntityID e1 = m_maxEntityID e"
      using RegisterComponent_nil [OF e1] e1_eq by auto
    have valid1: "eid \<noteq> NULL_ENTITY" "eid < m_maxEntityID e1"
      using valid max1 by simp_all
    have gp1: "GetComponentPool e1 T True = Inr (e1, b)"
      using GetComponentPool_registered [OF wf1 reg1] b reg1
      by (simp add: GetComponentBitPosition_def)
    have "Add e1 T Rs eid v = Add e T Rs eid v"
      by (simp add: Add_def gp gp1 valid_entity [OF valid] valid_entity [OF valid1])
    then show ?thesis
      using registered [OF wf1 reg1 valid1(2)] add by simp
  qed
qed

lemma do_ecs_call_wf:
  assumes "ECS_wf e" and "do_ecs_call e c = Inr e'"
  shows "ECS_wf e'"
proof (cases c)
  case (CallRegisterComponent T Cs)
  then show ?thesis using assms RegisterComponent_wf by auto
next
  case (CallCreate name)
  then show ?thesis
    using assms CreateEntity_wf [OF assms(1)] by (auto simp add: andThen_eq_Inr_iff)
next
  case (CallDestroy eid)
  then show ?thesis
    using assms DeleteEntity_wf [OF assms(1)] by (auto simp add: andThen_eq_Inr_iff)
next
  case (CallAdd T Rs eid v)
  then show ?thesis
    using assms Add_wf [OF assms(1)] by (auto simp add: andThen_eq_Inr_iff)
next
  case (CallRemove T Ss eid)
  then show ?thesis using assms Remove_wf by auto
qed

lemma do_ecs_calls_wf:
  "ECS_wf e \<Longrightarrow> do_ecs_calls e cs = Inr e' \<Longrightarrow> ECS_wf e'"
proof (induction cs arbitrary: e)
  case Nil
  then show ?case by simp
next
  case (Cons c cs)
  from Cons.prems(2) obtain e1 where e1: "do_ecs_call e c = Inr e1" "do_ecs_calls e1 cs = Inr e'"
    by (auto simp add: andThen_eq_Inr_iff)
  from Cons.prems(1) e1(1) have "ECS_wf e1" by (rule do_ecs_call_wf)
  then show ?case using e1(2) by (rule Cons.IH)
qed

lemmas cars_eval = cars_created_def cars_with_chassis_def cars_with_engine_def
  ECS_new_def SparseSet_new_def

lemma cars_created_reached:
  "do_ecs_calls ECS_new
     [CallRegisterComponent ''Chassis'' [], CallRegisterComponent ''Engine'' [''Chassis''],
      CallCreate [], CallCreate [], CallCreate []] = Inr cars_created"
  by (simp add: ecs_eval sparse_eval cars_eval)

lemma cars_with_chassis_reached:
  "do_ecs_calls cars_created
     [CallAdd ''Chassis'' [] 0 40, CallAdd ''Chassis'' [] 1 41, CallAdd ''Chassis'' [] 2 42] =
   Inr cars_with_chassis"
  by (simp add: ecs_eval sparse_eval cars_eval list_eval)

lemma cars_with_engine_reached:
  "do_ecs_calls cars_with_chassis [CallAdd ''Engine'' [''Chassis''] 0 60] = Inr cars_with_engine"
  by (simp add: ecs_eval sparse_eval cars_eval list_eval)

lemma cars_created_wf: "ECS_wf cars_created"
  using ECS_new_wf cars_created_reached by (rule do_ecs_calls_wf)

lemma cars_with_chassis_wf: "ECS_wf cars_with_chassis"
  using cars_created_wf cars_with_chassis_reached by (rule do_ecs_calls_wf)

lemma cars_with_engine_wf: "ECS_wf cars_with_engine"
  using cars_with_chassis_wf cars_with_engine_reached by (rule do_ecs_calls_wf)

lemma cars_engine_removed_reached:
  "do_ecs_calls cars_with_engine [CallRemove ''Engine'' [] 0] = Inr cars_engine_removed"
  by (simp add: ecs_eval sparse_eval cars_eval cars_engine_removed_def list_eval)

lemma cars_engine_removed_wf: "ECS_wf cars_engine_removed"
  using cars_with_engine_wf cars_engine_removed_reached by (rule do_ecs_calls_wf)

section \<open>The theorems on the example engine\<close>

theorem Add_contract_witness:
  "ECS_wf cars_created \<and>
   m_componentBitPosition cars_created ''Engine'' =
     Some \<lparr>m_bitPosition = 1, m_requiredComponents = 1, m_isRequiredInComponents = 0\<rparr> \<and>
   (0 :: EntityID) \<noteq> NULL_ENTITY \<and> 0 < m_maxEntityID cars_created \<and>
   \<not> holds_every cars_created 0 1 \<and>
   (\<exists>f. Add cars_created ''Engine'' [''Chassis''] 0 60 = Inl (Abort f)) \<and>
   ECS_wf cars_with_chassis \<and>
   GetMask cars_with_chassis [] \<noteq> Inr 1 \<and>
   (\<exists>f. Add cars_with_chassis ''Engine'' [] 0 60 = Inl (Abort f)) \<and>
   Has cars_with_chassis ''Engine'' 0 = Inr False \<and>
   GetMask cars_with_chassis [''Chassis''] = Inr 1 \<and>
   holds_every cars_with_chassis 0 1 \<and>
   (\<exists>index e'. Add cars_with_chassis ''Engine'' [''Chassis''] 0 60 = Inr (index, e') \<and>
      m_dense (m_componentPools e' ! 1) ! index = 60 \<and>
      Get (m_componentPools e' ! 1) 0 = Inr (Some 60) \<and>
      Has e' ''Engine'' 0 = Inr True \<and> ECS_Get e' ''Engine'' 0 = Inr 60) \<and>
   ECS_wf cars_with_engine \<and>
   Has cars_with_engine ''Engine'' 0 = Inr True \<and>
   Add cars_with_engine ''Engine'' [''Chassis''] 0 61 = Inl (Abort AlreadyHasComponent)"
proof -
  let ?info = "\<lparr>m_bitPosition = 1, m_requiredComponents = 1, m_isRequiredInComponents = 0\<rparr>"
  have valid: "(0 :: EntityID) \<noteq> NULL_ENTITY" "0 < m_maxEntityID cars_created"
    "0 < m_maxEntityID cars_with_chassis" "0 < m_maxEntityID cars_with_engine"
    by (simp_all add: NULL_ENTITY_def cars_eval)
  have reg: "m_componentBitPosition cars_created ''Engine'' = Some ?info"
    "m_componentBitPosition cars_with_chassis ''Engine'' = Some ?info"
    "m_componentBitPosition cars_with_engine ''Engine'' = Some ?info"
    by (simp_all add: cars_eval)
  have mask0: "GetMask cars_created [''Chassis''] = Inr 1"
    and mask1: "GetMask cars_with_chassis [''Chassis''] = Inr 1"
    and mask1': "GetMask cars_with_chassis [] \<noteq> Inr 1"
    by (simp_all add: ecs_eval cars_eval tombstone_def)
  have has0: "Has cars_created ''Chassis'' 0 = Inr False"
    and has1: "Has cars_with_chassis ''Chassis'' 0 = Inr True"
    and has1e: "Has cars_with_chassis ''Engine'' 0 = Inr False"
    and has2e: "Has cars_with_engine ''Engine'' 0 = Inr True"
    by (simp_all add: ecs_eval sparse_eval cars_eval)
  have lacks: "\<not> holds_every cars_created 0 1"
    using has0 by (simp add: holds_every_mask [OF cars_created_wf mask0])
  have holds: "holds_every cars_with_chassis 0 1"
    using has1 by (simp add: holds_every_mask [OF cars_with_chassis_wf mask1])
  show ?thesis
    using Add_contract [OF cars_created_wf reg(1) valid(1,2), of "[''Chassis'']" 60]
      Add_contract [OF cars_with_chassis_wf reg(2) valid(1,3), of "[]" 60]
      Add_contract [OF cars_with_chassis_wf reg(2) valid(1,3), of "[''Chassis'']" 60]
      Add_contract [OF cars_with_engine_wf reg(3) valid(1,4), of "[''Chassis'']" 61]
      cars_created_wf cars_with_chassis_wf cars_with_engine_wf
      valid reg mask1 mask1' has1e has2e lacks holds
    by simp
qed

theorem Remove_contract_witness:
  "ECS_wf cars_with_engine \<and>
   m_componentBitPosition cars_with_engine ''Chassis'' =
     Some \<lparr>m_bitPosition = 0, m_requiredComponents = 0, m_isRequiredInComponents = 2\<rparr> \<and>
   (0 :: EntityID) \<noteq> NULL_ENTITY \<and> 0 < m_maxEntityID cars_with_engine \<and>
   \<not> holds_none cars_with_engine 0 2 \<and>
   (\<exists>f. Remove cars_with_engine ''Chassis'' [''Engine''] 0 = Inl (Abort f)) \<and>
   Has cars_with_engine ''Engine'' 1 = Inr False \<and>
   Remove cars_with_engine ''Engine'' [] 1 = Inl (Abort NoComponentToRemove) \<and>
   Remove cars_with_engine ''Engine'' [] 0 = Inr cars_engine_removed \<and>
   ECS_wf cars_engine_removed \<and>
   GetMask cars_engine_removed [] \<noteq> Inr 2 \<and>
   (\<exists>f. Remove cars_engine_removed ''Chassis'' [] 0 = Inl (Abort f)) \<and>
   Has cars_engine_removed ''Chassis'' 0 = Inr True \<and>
   GetMask cars_engine_removed [''Engine''] = Inr 2 \<and>
   holds_none cars_engine_removed 0 2 \<and>
   (\<exists>e' pool'. Remove cars_engine_removed ''Chassis'' [''Engine''] 0 = Inr e' \<and>
      Delete (m_componentPools cars_engine_removed ! 0) 0 = Inr pool' \<and>
      e' = cars_engine_removed\<lparr>m_componentPools :=
             (m_componentPools cars_engine_removed)[0 := pool']\<rparr> \<and>
      Has e' ''Chassis'' 0 = Inr False)"
proof -
  let ?chassis = "\<lparr>m_bitPosition = 0, m_requiredComponents = 0, m_isRequiredInComponents = 2\<rparr>"
  let ?engine = "\<lparr>m_bitPosition = 1, m_requiredComponents = 1, m_isRequiredInComponents = 0\<rparr>"
  have valid: "(0 :: EntityID) \<noteq> NULL_ENTITY" "(1 :: EntityID) \<noteq> NULL_ENTITY"
    "0 < m_maxEntityID cars_engine_removed" "0 < m_maxEntityID cars_with_engine"
    "1 < m_maxEntityID cars_with_engine"
    by (simp_all add: NULL_ENTITY_def cars_eval cars_engine_removed_def)
  have reg: "m_componentBitPosition cars_engine_removed ''Chassis'' = Some ?chassis"
    "m_componentBitPosition cars_with_engine ''Chassis'' = Some ?chassis"
    "m_componentBitPosition cars_with_engine ''Engine'' = Some ?engine"
    by (simp_all add: cars_eval cars_engine_removed_def)
  have mask1: "GetMask cars_engine_removed [''Engine''] = Inr 2"
    and mask2: "GetMask cars_with_engine [''Engine''] = Inr 2"
    and mask1': "GetMask cars_engine_removed [] \<noteq> Inr 2"
    by (simp_all add: ecs_eval cars_eval cars_engine_removed_def tombstone_def)
  have has1: "Has cars_engine_removed ''Chassis'' 0 = Inr True"
    and has1e: "Has cars_engine_removed ''Engine'' 0 = Inr False"
    and has2e: "Has cars_with_engine ''Engine'' 0 = Inr True"
    and has2e1: "Has cars_with_engine ''Engine'' 1 = Inr False"
    by (simp_all add: ecs_eval sparse_eval cars_eval cars_engine_removed_def)
  have removed: "Remove cars_with_engine ''Engine'' [] 0 = Inr cars_engine_removed"
    using cars_engine_removed_reached by (simp add: andThen_eq_Inr_iff)
  have holds: "\<not> holds_none cars_with_engine 0 2"
    using has2e by (simp add: holds_none_mask [OF cars_with_engine_wf mask2])
  have none: "holds_none cars_engine_removed 0 2"
    using has1e by (simp add: holds_none_mask [OF cars_engine_removed_wf mask1])
  show ?thesis
    using Remove_contract [OF cars_with_engine_wf reg(2) valid(1,4), of "[''Engine'']"]
      Remove_contract [OF cars_with_engine_wf reg(3) valid(2,5), of "[]"]
      Remove_contract [OF cars_engine_removed_wf reg(1) valid(1,3), of "[]"]
      Remove_contract [OF cars_engine_removed_wf reg(1) valid(1,3), of "[''Engine'']"]
      cars_engine_removed_wf cars_with_engine_wf removed
      valid reg mask1 mask1' has1 has2e1 holds none
    by simp
qed

theorem Remove_keeps_other_entities_witness:
  "ECS_wf cars_with_chassis \<and>
   Remove cars_with_chassis ''Chassis'' [''Engine''] 0 =
     Inr (cars_with_chassis\<lparr>m_componentPools :=
       [\<lparr>m_sparsePages = [[tombstone, 1, 0]], m_dense = [42, 41], m_denseToEntity = [2, 1]\<rparr>,
        SparseSet_new]\<rparr>) \<and>
   (2 :: EntityID) \<noteq> 0 \<and>
   ECS_Get cars_with_chassis ''Chassis'' 2 = Inr 42 \<and>
   Has (cars_with_chassis\<lparr>m_componentPools :=
       [\<lparr>m_sparsePages = [[tombstone, 1, 0]], m_dense = [42, 41], m_denseToEntity = [2, 1]\<rparr>,
        SparseSet_new]\<rparr>) ''Chassis'' 0 = Inr False \<and>
   ECS_Get (cars_with_chassis\<lparr>m_componentPools :=
       [\<lparr>m_sparsePages = [[tombstone, 1, 0]], m_dense = [42, 41], m_denseToEntity = [2, 1]\<rparr>,
        SparseSet_new]\<rparr>) ''Chassis'' 2 = Inr 42"
proof -
  have rem: "Remove cars_with_chassis ''Chassis'' [''Engine''] 0 =
     Inr (cars_with_chassis\<lparr>m_componentPools :=
       [\<lparr>m_sparsePages = [[tombstone, 1, 0]], m_dense = [42, 41], m_denseToEntity = [2, 1]\<rparr>,
        SparseSet_new]\<rparr>)"
    by (simp add: ecs_eval sparse_eval cars_eval list_eval)
  have other: "(2 :: EntityID) \<noteq> 0" by simp
  have get: "ECS_Get cars_with_chassis ''Chassis'' 2 = Inr 42"
    by (simp add: ecs_eval sparse_eval cars_eval)
  show ?thesis
    using Remove_keeps_other_entities [OF cars_with_chassis_wf rem other get]
      cars_with_chassis_wf rem get
    by simp
qed

theorem Has_total_on_registered_witness:
  "ECS_wf cars_with_chassis \<and>
   m_componentBitPosition cars_with_chassis ''Chassis'' \<noteq> None \<and>
   m_componentBitPosition cars_with_chassis ''Engine'' \<noteq> None \<and>
   (\<exists>b. Has cars_with_chassis ''Chassis'' NULL_ENTITY = Inr b) \<and>
   m_componentBitPosition cars_with_chassis ''Position'' = None \<and>
   Has cars_with_chassis ''Position'' 0 = Inl (Abort (UnregisteredComponent ''Position'')) \<and>
   (\<exists>b. HasAll cars_with_chassis [''Chassis'', ''Engine''] NULL_ENTITY = Inr b)"
proof -
  have reg: "m_componentBitPosition cars_with_chassis ''Chassis'' \<noteq> None"
    "m_componentBitPosition cars_with_chassis ''Engine'' \<noteq> None"
    "m_componentBitPosition cars_with_chassis ''Position'' = None"
    by (simp_all add: cars_eval)
  show ?thesis
    using Has_total_on_registered [OF cars_with_chassis_wf, of "''Chassis''" NULL_ENTITY
        "[''Chassis'', ''Engine'']"]
      Has_total_on_registered [OF cars_with_chassis_wf, of "''Position''" 0 "[]"]
      cars_with_chassis_wf reg
    by simp
qed

theorem sparse_lookup_total_witness:
  "(\<exists>n. GetDenseIndex (m_componentPools cars_with_chassis ! 0) 5000 = Inr n) \<and>
   length (m_sparsePages (m_componentPools cars_with_chassis ! 0)) \<le>
     unat (5000 :: EntityID) div SPARSE_MAX_SIZE \<and>
   GetDenseIndex (m_componentPools cars_with_chassis ! 0) 5000 = Inr tombstone \<and>
   Get (m_componentPools cars_with_chassis ! 0) 5000 = Inr None \<and>
   ECS_wf cars_with_chassis \<and>
   m_componentBitPosition cars_with_chassis ''Chassis'' =
     Some \<lparr>m_bitPosition = 0, m_requiredComponents = 0, m_isRequiredInComponents = 2\<rparr> \<and>
   Has cars_with_chassis ''Chassis'' 5000 = Inr False \<and>
   length (m_sparsePages (m_componentPools cars_with_chassis ! 0) !
     (unat (7 :: EntityID) div SPARSE_MAX_SIZE)) \<le> unat (7 :: EntityID) mod SPARSE_MAX_SIZE \<and>
   Has cars_with_chassis ''Chassis'' 7 = Inr False"
proof -
  let ?chassis = "\<lparr>m_bitPosition = 0, m_requiredComponents = 0, m_isRequiredInComponents = 2\<rparr>"
  have reg: "m_componentBitPosition cars_with_chassis ''Chassis'' = Some ?chassis"
    by (simp add: cars_eval)
  have page: "length (m_sparsePages (m_componentPools cars_with_chassis ! 0)) \<le>
     unat (5000 :: EntityID) div SPARSE_MAX_SIZE"
    and slot: "length (m_sparsePages (m_componentPools cars_with_chassis ! 0) !
     (unat (7 :: EntityID) div SPARSE_MAX_SIZE)) \<le> unat (7 :: EntityID) mod SPARSE_MAX_SIZE"
    by (simp_all add: cars_eval SPARSE_MAX_SIZE_def)
  show ?thesis
    using sparse_lookup_total [of "m_componentPools cars_with_chassis ! 0" 5000
        cars_with_chassis "''Chassis''" ?chassis]
      sparse_lookup_total [of "m_componentPools cars_with_chassis ! 0" 7
        cars_with_chassis "''Chassis''" ?chassis]
      cars_with_chassis_wf reg page slot
    by simp
qed

theorem CreateEntity_contract_witness:
  "(\<exists>e'. CreateEntity (cars_created\<lparr>m_availableEntities := [2, 0]\<rparr>) ''car'' = Inr (0, e') \<and>
      m_availableEntities e' = [2] \<and> m_maxEntityID e' = 3) \<and>
   CreateEntity (cars_created\<lparr>m_maxEntityID := 1000000\<rparr>) ''car'' =
     Inl (Abort EntityLimitExceeded) \<and>
   (\<exists>e'. CreateEntity cars_created ''car'' = Inr (3, e') \<and>
      m_availableEntities e' = [] \<and> m_maxEntityID e' = 4) \<and>
   length (replicate MAX_ENTITIES ''car'') = MAX_ENTITIES \<and>
   (\<exists>e'. CreateEntities (ECS_new :: nat ECS) (replicate MAX_ENTITIES ''car'') =
      Inr (map of_nat [0..<MAX_ENTITIES], e') \<and>
      CreateEntity e' ''car'' = Inl (Abort EntityLimitExceeded))"
  using CreateEntity_contract [of "cars_created\<lparr>m_availableEntities := [2, 0]\<rparr>" "''car''" "[]"]
    CreateEntity_contract [of "cars_created\<lparr>m_maxEntityID := 1000000\<rparr>" "''car''" "[]"]
    CreateEntity_contract [of cars_created "''car''" "replicate MAX_ENTITIES ''car''"]
  by (simp add: cars_eval NULL_ENTITY_def MAX_ENTITIES_def)

theorem DeleteEntity_contract_witness:
  "(1 :: EntityID) \<noteq> NULL_ENTITY \<and> 1 < m_maxEntityID cars_with_chassis \<and>
   length (m_availableEntities cars_with_chassis) < vector_max_size \<and>
   (\<exists>e'. DeleteEntity cars_with_chassis 1 = Inr (NULL_ENTITY, e') \<and>
      m_entityNames e' = (m_entityNames cars_with_chassis)(1 := None) \<and>
      m_availableEntities e' = [1] \<and>
      m_componentPools e' = m_componentPools cars_with_chassis \<and>
      m_componentBitPosition e' = m_componentBitPosition cars_with_chassis \<and>
      m_maxEntityID e' = 3)"
proof -
  have valid: "(1 :: EntityID) \<noteq> NULL_ENTITY" "1 < m_maxEntityID cars_with_chassis"
    "length (m_availableEntities cars_with_chassis) < vector_max_size"
    by (simp_all add: cars_eval NULL_ENTITY_def vector_max_size_def)
  show ?thesis
    using DeleteEntity_contract [OF valid] valid by (simp add: cars_eval)
qed

end
